theory Spec2Isabelle
  imports Complex_Main "HOL-Library.Sublist"
begin

section \<open>Errors, environment and the Hevy HTTP client\<close>

text \<open>
  Every exception the adapters can raise is a value of \<open>error\<close>; a function that may raise
  returns \<open>error + 'a\<close> with \<open>Inl\<close> for the exception.
  \<^item> \<open>ValueError\<close>: raised by \<open>get_client\<close> with its message;
  \<^item> \<open>HTTPStatusError\<close>: raised by httpx's \<open>raise_for_status\<close>; it carries the response,
    of which the status code and the body are kept;
  \<^item> \<open>TransportError\<close>: any failure of the HTTP exchange itself (connection, timeout);
  \<^item> \<open>JSONDecodeError\<close>: raised by \<open>response.json()\<close> on a body that is not JSON;
  \<^item> \<open>OverflowError\<close>: raised by \<open>timedelta\<close>, by datetime arithmetic out of range and by the
    conversion of an int too large for a float;
  \<^item> \<open>UnicodeEncodeError\<close>: raised by \<open>httpx.Client\<close> for a header value that is not ASCII;
  \<^item> \<open>Unauthorized\<close>: what the Strava service answers to a request without a valid token.
\<close>

datatype error =
    ValueError string
  | HTTPStatusError nat string
  | TransportError string
  | JSONDecodeError
  | OverflowError
  | UnicodeEncodeError
  | Unauthorized

text \<open>\<open>os.environ\<close>: a dictionary from variable names to values.\<close>

type_synonym environ = "string \<rightharpoonup> string"

record client =
  base_url :: string
  headers :: "(string \<times> string) list"
  timeout :: real

definition BASE_URL :: string where
  "BASE_URL = ''https://api.hevyapp.com/v1''"

definition missing_key_message :: string where
  "missing_key_message =
     ''HEVY_API_KEY environment variable is not set. '' @
     ''Get your key at https://hevy.com/settings?developer''"

text \<open>
  \<open>get_client\<close>: \<open>os.environ.get("HEVY_API_KEY")\<close> is \<open>None\<close> for an unset variable, and
  \<open>not api_key\<close> holds for \<open>None\<close> and for the empty string. \<open>httpx.Client\<close>, library code,
  encodes the value of every header as ASCII when it is created and raises
  \<open>UnicodeEncodeError\<close> for a key with a character outside ASCII (a byte from 128 on).
\<close>

definition get_client :: "environ \<Rightarrow> error + client" where
  "get_client env =
     (case env ''HEVY_API_KEY'' of
        None \<Rightarrow> Inl (ValueError missing_key_message)
      | Some api_key \<Rightarrow>
          if api_key = [] then Inl (ValueError missing_key_message)
          else if list_ex (\<lambda>c. 128 \<le> (of_char c :: nat)) api_key then Inl UnicodeEncodeError
          else Inr \<lparr>base_url = BASE_URL,
                    headers = [(''api-key'', api_key),
                               (''Content-Type'', ''application/json''),
                               (''Accept'', ''application/json'')],
                    timeout = 30\<rparr>)"

text \<open>
  JSON documents as Python's \<open>json\<close> module reads them. Objects are association lists in
  key order.
\<close>

datatype json_value =
    JNull
  | JBool bool
  | JNumber real
  | JString string
  | JArray "json_value list"
  | JObject "(string \<times> json_value) list"

datatype verb = GET | POST | PUT | DELETE

text \<open>
  One HTTP request as the client sends it: the client that sends it (base URL, headers with
  the key, timeout), the verb, the path, the query parameters (\<open>params=\<close>, \<open>None\<close> when not
  given) and the JSON body (\<open>json=\<close>, absent for GET and DELETE).
\<close>

record request =
  req_client :: client
  req_verb :: verb
  req_path :: string
  req_params :: "(string \<times> int) list option"
  req_json :: "json_value option"

text \<open>
  A response: its status code, its raw body (\<open>response.content\<close>) and what
  \<open>response.json()\<close> returns or raises. The type \<open>'j\<close> is the type of the parsed document
  of the endpoint.
\<close>

record 'j response =
  status_code :: nat
  content :: string
  json :: "error + 'j"

text \<open>
  The network and the remote service: given the requests sent so far and the next request,
  the outcome of the exchange, either an exception of the transport or a response. Nothing
  is assumed about it. The list of requests sent is the only state the adapters have; every
  operation that may use the network takes it and returns it extended.
\<close>

type_synonym 'j server = "request list \<Rightarrow> request \<Rightarrow> error + 'j response"

definition send :: "'j server \<Rightarrow> request \<Rightarrow> request list \<Rightarrow> (error + 'j response) \<times> request list" where
  "send server req sent = (server sent req, sent @ [req])"

text \<open>
  httpx's \<open>Response.raise_for_status\<close> is library code: it returns the response when
  \<open>is_success\<close> holds, which is \<open>200 \<le> status_code \<le> 299\<close>, and raises
  \<open>HTTPStatusError\<close> holding the response otherwise.
\<close>

definition raise_for_status :: "'j response \<Rightarrow> error + 'j response" where
  "raise_for_status r =
     (if 200 \<le> status_code r \<and> status_code r \<le> 299 then Inr r
      else Inl (HTTPStatusError (status_code r) (content r)))"

text \<open>
  The four verbs. Each one creates its client first (\<open>with get_client() as client\<close>), sends
  one request, raises for a status that is not a success and returns the parsed body.
\<close>

definition api_get ::
  "environ \<Rightarrow> 'j server \<Rightarrow> string \<Rightarrow> (string \<times> int) list option \<Rightarrow> request list
     \<Rightarrow> (error + 'j) \<times> request list" where
  "api_get env server path params sent =
     (case get_client env of
        Inl e \<Rightarrow> (Inl e, sent)
      | Inr client \<Rightarrow>
          (case send server \<lparr>req_client = client, req_verb = GET, req_path = path,
                             req_params = params, req_json = None\<rparr> sent of
             (Inl e, sent') \<Rightarrow> (Inl e, sent')
           | (Inr response, sent') \<Rightarrow>
               (case raise_for_status response of
                  Inl e \<Rightarrow> (Inl e, sent')
                | Inr r \<Rightarrow> (json r, sent'))))"

definition api_post ::
  "environ \<Rightarrow> 'j server \<Rightarrow> string \<Rightarrow> json_value \<Rightarrow> request list
     \<Rightarrow> (error + 'j) \<times> request list" where
  "api_post env server path data sent =
     (case get_client env of
        Inl e \<Rightarrow> (Inl e, sent)
      | Inr client \<Rightarrow>
          (case send server \<lparr>req_client = client, req_verb = POST, req_path = path,
                             req_params = None, req_json = Some data\<rparr> sent of
             (Inl e, sent') \<Rightarrow> (Inl e, sent')
           | (Inr response, sent') \<Rightarrow>
               (case raise_for_status response of
                  Inl e \<Rightarrow> (Inl e, sent')
                | Inr r \<Rightarrow> (json r, sent'))))"

definition api_put ::
  "environ \<Rightarrow> 'j server \<Rightarrow> string \<Rightarrow> json_value \<Rightarrow> request list
     \<Rightarrow> (error + 'j) \<times> request list" where
  "api_put env server path data sent =
     (case get_client env of
        Inl e \<Rightarrow> (Inl e, sent)
      | Inr client \<Rightarrow>
          (case send server \<lparr>req_client = client, req_verb = PUT, req_path = path,
                             req_params = None, req_json = Some data\<rparr> sent of
             (Inl e, sent') \<Rightarrow> (Inl e, sent')
           | (Inr response, sent') \<Rightarrow>
               (case raise_for_status response of
                  Inl e \<Rightarrow> (Inl e, sent')
                | Inr r \<Rightarrow> (json r, sent'))))"

text \<open>
  \<open>api_delete\<close> parses the body only when \<open>response.content\<close> is not empty and returns
  the dictionary \<open>{"success": True}\<close> otherwise.
\<close>

definition success_marker :: json_value where
  "success_marker = JObject [(''success'', JBool True)]"

definition api_delete ::
  "environ \<Rightarrow> json_value server \<Rightarrow> string \<Rightarrow> request list
     \<Rightarrow> (error + json_value) \<times> request list" where
  "api_delete env server path sent =
     (case get_client env of
        Inl e \<Rightarrow> (Inl e, sent)
      | Inr client \<Rightarrow>
          (case send server \<lparr>req_client = client, req_verb = DELETE, req_path = path,
                             req_params = None, req_json = None\<rparr> sent of
             (Inl e, sent') \<Rightarrow> (Inl e, sent')
           | (Inr response, sent') \<Rightarrow>
               (case raise_for_status response of
                  Inl e \<Rightarrow> (Inl e, sent')
                | Inr r \<Rightarrow>
                    if content r \<noteq> [] then (json r, sent')
                    else (Inr success_marker, sent'))))"

section \<open>Python numbers\<close>

text \<open>
  A number of a JSON document is, in Python, an \<open>int\<close> of any size or a \<open>float\<close>. A float
  is an IEEE 754 double: a finite value, an infinity or NaN (\<open>json\<close> reads \<open>1e999\<close> as
  infinity). A finite double is given by the real it denotes; the two zeros are one value
  \<open>Finite 0\<close>: they compare equal, both are falsy, and a sum that starts at \<open>0.0\<close> is never
  the negative zero.

  Rounding a real result to a double is the work of the hardware and a parameter \<open>rnd\<close> of
  the model: \<open>rnd x\<close> is the double nearest to \<open>x\<close>, an infinity when \<open>x\<close> is beyond the
  largest double. Nothing is assumed about it in the definitions.
\<close>

datatype pyfloat = Finite real | PosInf | NegInf | NaN

datatype pynum = PyInt int | PyFloat pyfloat

type_synonym rounding = "real \<Rightarrow> pyfloat"

text \<open>The product and the sum of two floats: the exact result rounded, and the IEEE rules for
  the infinities and NaN (\<open>inf * 0\<close> and \<open>inf - inf\<close> are NaN).\<close>

fun fmul :: "rounding \<Rightarrow> pyfloat \<Rightarrow> pyfloat \<Rightarrow> pyfloat" where
  "fmul rnd (Finite x) (Finite y) = rnd (x * y)"
| "fmul rnd (Finite x) PosInf = (if x = 0 then NaN else if 0 < x then PosInf else NegInf)"
| "fmul rnd (Finite x) NegInf = (if x = 0 then NaN else if 0 < x then NegInf else PosInf)"
| "fmul rnd PosInf (Finite y) = (if y = 0 then NaN else if 0 < y then PosInf else NegInf)"
| "fmul rnd NegInf (Finite y) = (if y = 0 then NaN else if 0 < y then NegInf else PosInf)"
| "fmul rnd PosInf PosInf = PosInf"
| "fmul rnd PosInf NegInf = NegInf"
| "fmul rnd NegInf PosInf = NegInf"
| "fmul rnd NegInf NegInf = PosInf"
| "fmul rnd NaN b = NaN"
| "fmul rnd a NaN = NaN"

fun fadd :: "rounding \<Rightarrow> pyfloat \<Rightarrow> pyfloat \<Rightarrow> pyfloat" where
  "fadd rnd (Finite x) (Finite y) = rnd (x + y)"
| "fadd rnd (Finite x) PosInf = PosInf"
| "fadd rnd (Finite x) NegInf = NegInf"
| "fadd rnd PosInf (Finite y) = PosInf"
| "fadd rnd NegInf (Finite y) = NegInf"
| "fadd rnd PosInf PosInf = PosInf"
| "fadd rnd PosInf NegInf = NaN"
| "fadd rnd NegInf PosInf = NaN"
| "fadd rnd NegInf NegInf = NegInf"
| "fadd rnd NaN b = NaN"
| "fadd rnd a NaN = NaN"

text \<open>
  An \<open>int\<close> that meets a float in \<open>*\<close> or \<open>+\<close> is converted to a float first: rounded to the
  nearest double, with \<open>OverflowError\<close> (int too large to convert to float) when it is
  beyond the largest double.
\<close>

definition float_of_int :: "rounding \<Rightarrow> int \<Rightarrow> error + pyfloat" where
  "float_of_int rnd n =
     (case rnd (real_of_int n) of Finite x \<Rightarrow> Inr (Finite x) | _ \<Rightarrow> Inl OverflowError)"

definition py_truthy :: "pynum \<Rightarrow> bool" where
  \<comment> \<open>the truth value of a number: false for \<open>0\<close> and \<open>0.0\<close> only\<close>
  "py_truthy v =
     (case v of PyInt i \<Rightarrow> i \<noteq> 0 | PyFloat (Finite x) \<Rightarrow> x \<noteq> 0 | PyFloat _ \<Rightarrow> True)"

definition py_mul :: "rounding \<Rightarrow> pynum \<Rightarrow> int \<Rightarrow> error + pynum" where
  \<comment> \<open>\<open>kg * reps\<close> for a number \<open>kg\<close> and an int \<open>reps\<close>: exact for two ints\<close>
  "py_mul rnd kg n =
     (case kg of
        PyInt k \<Rightarrow> Inr (PyInt (k * n))
      | PyFloat f \<Rightarrow>
          (case float_of_int rnd n of
             Inl e \<Rightarrow> Inl e
           | Inr g \<Rightarrow> Inr (PyFloat (fmul rnd f g))))"

definition py_add_to_float :: "rounding \<Rightarrow> pyfloat \<Rightarrow> pynum \<Rightarrow> error + pyfloat" where
  \<comment> \<open>\<open>t + p\<close> for a float \<open>t\<close> and a number \<open>p\<close>\<close>
  "py_add_to_float rnd t p =
     (case p of
        PyInt k \<Rightarrow>
          (case float_of_int rnd k of
             Inl e \<Rightarrow> Inl e
           | Inr g \<Rightarrow> Inr (fadd rnd t g))
      | PyFloat g \<Rightarrow> Inr (fadd rnd t g))"

text \<open>A \<open>for\<close> loop over a list whose body may raise: the first exception ends it.\<close>

fun fold_raising :: "('a \<Rightarrow> 's \<Rightarrow> error + 's) \<Rightarrow> 'a list \<Rightarrow> 's \<Rightarrow> error + 's" where
  "fold_raising body [] st = Inr st"
| "fold_raising body (x # xs) st =
     (case body x st of Inl e \<Rightarrow> Inl e | Inr st' \<Rightarrow> fold_raising body xs st')"

section \<open>The records of the Hevy workout log\<close>

text \<open>
  The JSON objects the aggregation reads, with the fields it reads. A field is optional
  exactly where the code reads it with \<open>.get\<close>: \<open>None\<close> stands for a key that is absent
  (for \<open>weight_kg\<close> and \<open>reps\<close>, also for JSON \<open>null\<close>, which the API documents for them).
  A weight is a JSON number, an int or a float; the repetitions are an int.
\<close>

record set_entry =
  weight_kg :: "pynum option"
  reps :: "int option"

record exercise_entry =
  ex_title :: "string option"
  sets :: "set_entry list option"

record workout =
  title :: "string option"
  start_time :: "string option"
  exercises :: "exercise_entry list option"

record workouts_page =
  workouts :: "workout list option"

definition workouts_of :: "workouts_page \<Rightarrow> workout list" where
  \<comment> \<open>\<open>data.get("workouts", [])\<close>\<close>
  "workouts_of data = (case workouts data of None \<Rightarrow> [] | Some ws \<Rightarrow> ws)"

definition start_of :: "workout \<Rightarrow> string" where
  \<comment> \<open>\<open>w.get("start_time", "")\<close>\<close>
  "start_of w = (case start_time w of None \<Rightarrow> [] | Some s \<Rightarrow> s)"

definition title_of :: "workout \<Rightarrow> string" where
  \<comment> \<open>\<open>w.get("title", "Untitled")\<close>\<close>
  "title_of w = (case title w of None \<Rightarrow> ''Untitled'' | Some t \<Rightarrow> t)"

definition exercises_of :: "workout \<Rightarrow> exercise_entry list" where
  \<comment> \<open>\<open>w.get("exercises", [])\<close>\<close>
  "exercises_of w = (case exercises w of None \<Rightarrow> [] | Some es \<Rightarrow> es)"

definition ex_title_of :: "exercise_entry \<Rightarrow> string" where
  \<comment> \<open>\<open>ex.get("title", "Unknown")\<close>\<close>
  "ex_title_of ex = (case ex_title ex of None \<Rightarrow> ''Unknown'' | Some t \<Rightarrow> t)"

definition sets_of :: "exercise_entry \<Rightarrow> set_entry list" where
  \<comment> \<open>\<open>ex.get("sets", [])\<close>\<close>
  "sets_of ex = (case sets ex of None \<Rightarrow> [] | Some ss \<Rightarrow> ss)"

definition kg_of :: "set_entry \<Rightarrow> pynum" where
  \<comment> \<open>\<open>s.get("weight_kg") or 0\<close>: the value when it is there and truthy, else the int 0\<close>
  "kg_of s = (case weight_kg s of None \<Rightarrow> PyInt 0 | Some v \<Rightarrow> if py_truthy v then v else PyInt 0)"

definition reps_of :: "set_entry \<Rightarrow> int" where
  \<comment> \<open>\<open>s.get("reps") or 0\<close>\<close>
  "reps_of s = (case reps s of None \<Rightarrow> 0 | Some n \<Rightarrow> if n \<noteq> 0 then n else 0)"

section \<open>Time\<close>

text \<open>
  A Python \<open>datetime\<close> is naive (no time zone) or aware. An aware one is modelled by the
  instant it denotes, in microseconds since 0001-01-01T00:00:00 UTC; aware datetimes compare
  by their instants. Comparing a naive datetime with an aware one raises \<open>TypeError\<close>.

  \<open>datetime.fromisoformat\<close> is library code and a parameter of the model: a function
  from the text to the datetime it denotes, \<open>None\<close> where it raises \<open>ValueError\<close>.
\<close>

datatype pydatetime = Naive int | Aware int

type_synonym iso_parser = "string \<Rightarrow> pydatetime option"

definition replace_Z :: "string \<Rightarrow> string" where
  \<comment> \<open>\<open>start.replace("Z", "+00:00")\<close>: every \<open>Z\<close> of the text is replaced\<close>
  "replace_Z s = concat (map (\<lambda>c. if c = CHR ''Z'' then ''+00:00'' else [c]) s)"

definition MICROSECONDS_PER_DAY :: int where
  "MICROSECONDS_PER_DAY = 86400000000"

definition MAX_DELTA_DAYS :: int where
  "MAX_DELTA_DAYS = 999999999"

definition MAXORDINAL :: int where
  \<comment> \<open>the day number of 9999-12-31\<close>
  "MAXORDINAL = 3652059"

text \<open>
  \<open>cutoff = datetime.now(timezone.utc) - timedelta(days=days)\<close>, from the clock's instant
  \<open>now\<close>. \<open>timedelta\<close> raises \<open>OverflowError\<close> for more than 999999999 days either way,
  and so does the subtraction when the result leaves the years 1 to 9999.
\<close>

definition cutoff_time :: "int \<Rightarrow> int \<Rightarrow> error + int" where
  "cutoff_time now days =
     (if \<bar>days\<bar> > MAX_DELTA_DAYS then Inl OverflowError
      else if now - days * MICROSECONDS_PER_DAY < 0
              \<or> now - days * MICROSECONDS_PER_DAY \<ge> MAXORDINAL * MICROSECONDS_PER_DAY
           then Inl OverflowError
      else Inr (now - days * MICROSECONDS_PER_DAY))"

section \<open>Scanning the pages\<close>

text \<open>
  The inner loop \<open>for w in workouts\<close> of \<open>analyze_recent_workouts\<close>, with the list
  \<open>all_workouts\<close> it appends to. It returns whether it left by \<open>break\<close>, and the list.
  Inside the \<open>try\<close>, a text that does not parse and a comparison that raises (a naive
  datetime) both end in \<open>except Exception: continue\<close>.
\<close>

fun scan_page :: "int \<Rightarrow> iso_parser \<Rightarrow> workout list \<Rightarrow> workout list \<Rightarrow> bool \<times> workout list" where
  "scan_page cutoff fromisoformat [] all_workouts = (False, all_workouts)"
| "scan_page cutoff fromisoformat (w # ws) all_workouts =
     (if start_of w \<noteq> [] then
        (case fromisoformat (replace_Z (start_of w)) of
           None \<Rightarrow> scan_page cutoff fromisoformat ws all_workouts
         | Some (Naive t) \<Rightarrow> scan_page cutoff fromisoformat ws all_workouts
         | Some (Aware wdate) \<Rightarrow>
             if wdate \<ge> cutoff then scan_page cutoff fromisoformat ws (all_workouts @ [w])
             else if wdate < cutoff then (True, all_workouts)
             else scan_page cutoff fromisoformat ws all_workouts)
      else scan_page cutoff fromisoformat ws all_workouts)"

definition workouts_request_params :: "int \<Rightarrow> (string \<times> int) list option" where
  \<comment> \<open>\<open>params={"page": page, "pageSize": 10}\<close>\<close>
  "workouts_request_params page = Some [(''page'', page), (''pageSize'', 10)]"

text \<open>
  The outer loop \<open>for page in range(1, 6)\<close>, over the pages that are left. An empty page
  leaves it by \<open>break\<close>; a page that the inner loop leaves by \<open>break\<close> skips the
  \<open>else: continue\<close> and reaches the outer \<open>break\<close>. An exception of \<open>api_get\<close> is
  not caught.
\<close>

fun fetch_pages ::
  "environ \<Rightarrow> workouts_page server \<Rightarrow> int \<Rightarrow> iso_parser \<Rightarrow> int list \<Rightarrow> workout list
     \<Rightarrow> request list \<Rightarrow> (error + workout list) \<times> request list" where
  "fetch_pages env server cutoff fromisoformat [] all_workouts sent = (Inr all_workouts, sent)"
| "fetch_pages env server cutoff fromisoformat (page # pages) all_workouts sent =
     (case api_get env server ''/workouts'' (workouts_request_params page) sent of
        (Inl e, sent') \<Rightarrow> (Inl e, sent')
      | (Inr data, sent') \<Rightarrow>
          if workouts_of data = [] then (Inr all_workouts, sent')
          else (case scan_page cutoff fromisoformat (workouts_of data) all_workouts of
                  (broke, all_workouts') \<Rightarrow>
                    if broke then (Inr all_workouts', sent')
                    else fetch_pages env server cutoff fromisoformat pages all_workouts' sent'))"

definition page_range :: "int list" where
  \<comment> \<open>\<open>range(1, 6)\<close>\<close>
  "page_range = [1, 2, 3, 4, 5]"

section \<open>Totals of the kept workouts\<close>

text \<open>
  \<open>exercise_counts\<close> is a Python dictionary: it keeps its keys in the order of their
  first insertion, and an assignment to a key that is there keeps the key's place. It is an
  association list in that order. \<open>bump\<close> is
  \<open>exercise_counts[ex_title] = exercise_counts.get(ex_title, 0) + 1\<close>.
\<close>

fun bump :: "string \<Rightarrow> (string \<times> nat) list \<Rightarrow> (string \<times> nat) list" where
  "bump k [] = [(k, 1)]"
| "bump k ((k', c) # rest) = (if k = k' then (k', c + 1) # rest else (k', c) # bump k rest)"

record totals =
  total_sets :: nat
  total_volume_kg :: pyfloat
  exercise_counts :: "(string \<times> nat) list"

text \<open>
  The three nested loops. The body of the innermost computes \<open>kg * reps\<close> and adds it to
  the float \<open>total_volume_kg\<close>; either step may raise \<open>OverflowError\<close>, which nothing
  catches.
\<close>

definition add_set :: "rounding \<Rightarrow> set_entry \<Rightarrow> totals \<Rightarrow> error + totals" where
  \<comment> \<open>the body of \<open>for s in ex.get("sets", [])\<close>\<close>
  "add_set rnd s st =
     (case py_mul rnd (kg_of s) (reps_of s) of
        Inl e \<Rightarrow> Inl e
      | Inr p \<Rightarrow>
          (case py_add_to_float rnd (total_volume_kg st) p of
             Inl e \<Rightarrow> Inl e
           | Inr t \<Rightarrow> Inr (st\<lparr>total_sets := total_sets st + 1, total_volume_kg := t\<rparr>)))"

definition add_exercise :: "rounding \<Rightarrow> exercise_entry \<Rightarrow> totals \<Rightarrow> error + totals" where
  \<comment> \<open>the body of \<open>for ex in exercises\<close>\<close>
  "add_exercise rnd ex st =
     fold_raising (add_set rnd) (sets_of ex)
       (st\<lparr>exercise_counts := bump (ex_title_of ex) (exercise_counts st)\<rparr>)"

definition add_workout :: "rounding \<Rightarrow> workout \<Rightarrow> totals \<Rightarrow> error + totals" where
  \<comment> \<open>the body of the first \<open>for w in all_workouts\<close>\<close>
  "add_workout rnd w st = fold_raising (add_exercise rnd) (exercises_of w) st"

definition aggregate :: "rounding \<Rightarrow> workout list \<Rightarrow> error + totals" where
  "aggregate rnd all_workouts =
     fold_raising (add_workout rnd) all_workouts
       \<lparr>total_sets = 0, total_volume_kg = Finite 0, exercise_counts = []\<rparr>"

text \<open>
  \<open>sorted(exercise_counts.items(), key=lambda x: -x[1])[:10]\<close>. Python's \<open>sorted\<close> is
  a stable sort by the key; \<open>sort_key\<close> is one too, and a stable sort by a key has one result.
\<close>

definition sorted_ex :: "(string \<times> nat) list \<Rightarrow> (string \<times> nat) list" where
  "sorted_ex counts = take 10 (sort_key (\<lambda>x. - int (snd x)) counts)"

section \<open>The text of the summary\<close>

text \<open>
  A Python string is a list of characters here; a character outside ASCII is written as the
  bytes of its UTF-8 form. \<open>str_int\<close> is how an f-string writes an \<open>int\<close>.
\<close>

fun str_nat :: "nat \<Rightarrow> string" where
  "str_nat n =
     (if n < 10 then [''0123456789'' ! n]
      else str_nat (n div 10) @ [''0123456789'' ! (n mod 10)])"

declare str_nat.simps [simp del]

definition str_int :: "int \<Rightarrow> string" where
  "str_int i = (if i < 0 then CHR ''-'' # str_nat (nat (- i)) else str_nat (nat i))"

definition chart_emoji :: string where
  \<comment> \<open>U+1F4CA\<close>
  "chart_emoji = [CHR 0xF0, CHR 0x9F, CHR 0x93, CHR 0x8A]"

definition em_dash :: string where
  \<comment> \<open>U+2014\<close>
  "em_dash = [CHR 0xE2, CHR 0x80, CHR 0x94]"

definition bullet :: string where
  \<comment> \<open>U+2022\<close>
  "bullet = [CHR 0xE2, CHR 0x80, CHR 0xA2]"

fun join_lines :: "string list \<Rightarrow> string" where
  \<comment> \<open>\<open>"\n".join(lines)\<close>\<close>
  "join_lines [] = []"
| "join_lines [l] = l"
| "join_lines (l # ls) = l @ [CHR 0x0A] @ join_lines ls"

definition no_activity_message :: "int \<Rightarrow> string" where
  \<comment> \<open>\<open>f"No workouts found in the last {days} days."\<close>\<close>
  "no_activity_message days = ''No workouts found in the last '' @ str_int days @ '' days.''"

definition header_line :: "int \<Rightarrow> string" where
  "header_line days =
     chart_emoji @ '' **Training Summary '' @ em_dash @ '' Last '' @ str_int days @ '' days**''"

definition workout_line :: "workout \<Rightarrow> string" where
  \<comment> \<open>the date is \<open>w.get("start_time", "")[:10]\<close>\<close>
  "workout_line w =
     ''  '' @ bullet @ '' '' @ take 10 (start_of w) @ '' '' @ em_dash @ '' '' @ title_of w @
     '' ('' @ str_nat (length (exercises_of w)) @ '' exercises)''"

definition exercise_line :: "string \<times> nat \<Rightarrow> string" where
  "exercise_line x = ''  '' @ bullet @ '' '' @ fst x @ '': '' @ str_nat (snd x) @ ''x''"

definition frequency_section :: "(string \<times> nat) list \<Rightarrow> string list" where
  \<comment> \<open>\<open>if exercise_counts:\<close> and the lines it appends\<close>
  "frequency_section counts =
     (if counts \<noteq> [] then
        [[], ''**Most frequent exercises:**''] @ map exercise_line (sorted_ex counts)
      else [])"

text \<open>
  The lines of the summary, from the kept workouts and their totals. \<open>format_volume\<close> is
  Python's number formatting \<open>:,.1f\<close> of a float, library code and a parameter of the model.
\<close>

definition summary_lines :: "(pyfloat \<Rightarrow> string) \<Rightarrow> int \<Rightarrow> workout list \<Rightarrow> totals \<Rightarrow> string list" where
  "summary_lines format_volume days all_workouts st =
     [header_line days, [],
      ''Total workouts: '' @ str_nat (length all_workouts),
      ''Total sets: '' @ str_nat (total_sets st),
      ''Total volume: '' @ format_volume (total_volume_kg st) @ '' kg'',
      [],
      ''**Workouts:**'']
     @ map workout_line all_workouts
     @ frequency_section (exercise_counts st)"

section \<open>The tool\<close>

text \<open>
  \<open>analyze_recent_workouts(days)\<close>, run in an environment, against a server, at the clock's
  instant \<open>now\<close>, with the list of the requests sent before it. The first line of the
  summary is put into \<open>lines\<close> before the totals are computed, but an exception in the
  totals leaves the function with nothing returned.
\<close>

definition analyze_recent_workouts ::
  "environ \<Rightarrow> workouts_page server \<Rightarrow> int \<Rightarrow> iso_parser \<Rightarrow> rounding \<Rightarrow> (pyfloat \<Rightarrow> string)
     \<Rightarrow> int
     \<Rightarrow> request list \<Rightarrow> (error + string) \<times> request list" where
  "analyze_recent_workouts env server now fromisoformat rnd format_volume days sent =
     (case cutoff_time now days of
        Inl e \<Rightarrow> (Inl e, sent)
      | Inr cutoff \<Rightarrow>
          (case fetch_pages env server cutoff fromisoformat page_range [] sent of
             (Inl e, sent') \<Rightarrow> (Inl e, sent')
           | (Inr all_workouts, sent') \<Rightarrow>
               if all_workouts = [] then (Inr (no_activity_message days), sent')
               else
                 (case aggregate rnd all_workouts of
                    Inl e \<Rightarrow> (Inl e, sent')
                  | Inr st \<Rightarrow>
                      (Inr (join_lines (summary_lines format_volume days all_workouts st)),
                       sent'))))"

section \<open>The Strava adapter\<close>

text \<open>
  \<open>_strava_client()\<close> builds a \<open>stravalib.Client\<close> from \<open>os.getenv("STRAVA_ACCESS_TOKEN")\<close>,
  which is \<open>None\<close> for an unset variable. The client keeps the token it is given.
\<close>

record stravalib_client =
  access_token :: "string option"

definition strava_client :: "environ \<Rightarrow> stravalib_client" where
  "strava_client env = \<lparr>access_token = env ''STRAVA_ACCESS_TOKEN''\<rparr>"

text \<open>
  A call of the Strava API through the library: the token the client holds and the call.
  The service is a parameter, as for Hevy; \<open>'a\<close> is the type of an activity.
\<close>

datatype strava_call = GetActivities int

record strava_request =
  sr_token :: "string option"
  sr_call :: strava_call

type_synonym 'a strava_service = "strava_request list \<Rightarrow> strava_request \<Rightarrow> error + 'a list"

text \<open>
  The branch \<open>get_strava_activities\<close> of \<open>call_tool\<close>: the client is built, then
  \<open>client.get_activities(limit=arguments.get("limit", 10))\<close> is iterated. \<open>render\<close> is the
  loop that builds the text from the activities.
\<close>

definition get_strava_activities ::
  "environ \<Rightarrow> 'a strava_service \<Rightarrow> ('a list \<Rightarrow> error + string) \<Rightarrow> int option
     \<Rightarrow> strava_request list \<Rightarrow> (error + string) \<times> strava_request list" where
  "get_strava_activities env service render limit sent =
     (case service sent \<lparr>sr_token = access_token (strava_client env),
                         sr_call = GetActivities (case limit of None \<Rightarrow> 10 | Some n \<Rightarrow> n)\<rparr> of
        Inl e \<Rightarrow>
          (Inl e, sent @ [\<lparr>sr_token = access_token (strava_client env),
                            sr_call = GetActivities (case limit of None \<Rightarrow> 10 | Some n \<Rightarrow> n)\<rparr>])
      | Inr activities \<Rightarrow>
          (render activities,
           sent @ [\<lparr>sr_token = access_token (strava_client env),
                     sr_call = GetActivities (case limit of None \<Rightarrow> 10 | Some n \<Rightarrow> n)\<rparr>]))"

section \<open>Vocabulary of the properties\<close>

text \<open>
  The parsed start time of a record, where the loop gets one to compare with the cutoff: the
  text is not empty, it parses, and the datetime is aware. A record is recent when that
  instant is at or after the cutoff and stale when it is before it.
\<close>

definition parsed_start :: "iso_parser \<Rightarrow> workout \<Rightarrow> int option" where
  "parsed_start fromisoformat w =
     (if start_of w = [] then None
      else (case fromisoformat (replace_Z (start_of w)) of
              Some (Aware t) \<Rightarrow> Some t
            | _ \<Rightarrow> None))"

definition is_recent :: "int \<Rightarrow> iso_parser \<Rightarrow> workout \<Rightarrow> bool" where
  "is_recent cutoff fromisoformat w =
     (case parsed_start fromisoformat w of Some t \<Rightarrow> cutoff \<le> t | None \<Rightarrow> False)"

definition is_stale :: "int \<Rightarrow> iso_parser \<Rightarrow> workout \<Rightarrow> bool" where
  "is_stale cutoff fromisoformat w =
     (case parsed_start fromisoformat w of Some t \<Rightarrow> t < cutoff | None \<Rightarrow> False)"

text \<open>
  A sequence of pages as a server: it answers the requests in turn with the pages of the
  list, each with status 200, and with an empty page once the list is used up. And what a
  scan keeps of a sequence of pages: of the records of the pages before the first empty page,
  in order, those before the first stale record that are recent.
\<close>

definition serve_pages :: "workout list list \<Rightarrow> workouts_page server" where
  "serve_pages pages sent req =
     Inr \<lparr>status_code = 200, content = ''{..}'',
          json = Inr \<lparr>workouts = Some (if length sent < length pages then pages ! length sent else [])\<rparr>\<rparr>"

definition kept_of_pages :: "int \<Rightarrow> iso_parser \<Rightarrow> workout list list \<Rightarrow> workout list" where
  "kept_of_pages cutoff fromisoformat ps =
     filter (is_recent cutoff fromisoformat)
       (takeWhile (\<lambda>x. \<not> is_stale cutoff fromisoformat x)
          (concat (takeWhile (\<lambda>p. p \<noteq> []) ps)))"

text \<open>
  What the outside sees of a request, and the request for one page of workouts.
\<close>

definition request_view :: "request \<Rightarrow> verb \<times> string \<times> (string \<times> int) list option" where
  "request_view r = (req_verb r, req_path r, req_params r)"

definition page_request_view :: "int \<Rightarrow> verb \<times> string \<times> (string \<times> int) list option" where
  "page_request_view page = (GET, ''/workouts'', Some [(''page'', page), (''pageSize'', 10)])"

text \<open>
  A server that answers every request, whatever was sent before, with a status of success
  and a body that parses.
\<close>

definition always_answers :: "'j server \<Rightarrow> bool" where
  "always_answers server =
     (\<forall>sent req. \<exists>r d. server sent req = Inr r \<and> 200 \<le> status_code r \<and> status_code r \<le> 299
                     \<and> json r = Inr d)"

text \<open>
  A server that honours the page size asked for: no body it returns holds more than 10
  workouts.
\<close>

definition honours_page_size :: "workouts_page server \<Rightarrow> bool" where
  "honours_page_size server =
     (\<forall>sent req r d. server sent req = Inr r \<and> json r = Inr d \<longrightarrow> length (workouts_of d) \<le> 10)"

text \<open>
  How many records the scan examines: the number of times the body of the inner loop runs.
  \<open>scanned_in_page\<close> follows \<open>scan_page\<close> and \<open>scanned_records\<close> follows \<open>fetch_pages\<close>,
  branch by branch; they count and change nothing.
\<close>

fun scanned_in_page :: "int \<Rightarrow> iso_parser \<Rightarrow> workout list \<Rightarrow> nat" where
  "scanned_in_page cutoff fromisoformat [] = 0"
| "scanned_in_page cutoff fromisoformat (w # ws) =
     (if start_of w \<noteq> [] then
        (case fromisoformat (replace_Z (start_of w)) of
           None \<Rightarrow> Suc (scanned_in_page cutoff fromisoformat ws)
         | Some (Naive t) \<Rightarrow> Suc (scanned_in_page cutoff fromisoformat ws)
         | Some (Aware wdate) \<Rightarrow>
             if wdate \<ge> cutoff then Suc (scanned_in_page cutoff fromisoformat ws)
             else if wdate < cutoff then 1
             else Suc (scanned_in_page cutoff fromisoformat ws))
      else Suc (scanned_in_page cutoff fromisoformat ws))"

fun scanned_records ::
  "environ \<Rightarrow> workouts_page server \<Rightarrow> int \<Rightarrow> iso_parser \<Rightarrow> int list \<Rightarrow> workout list
     \<Rightarrow> request list \<Rightarrow> nat" where
  "scanned_records env server cutoff fromisoformat [] all_workouts sent = 0"
| "scanned_records env server cutoff fromisoformat (page # pages) all_workouts sent =
     (case api_get env server ''/workouts'' (workouts_request_params page) sent of
        (Inl e, sent') \<Rightarrow> 0
      | (Inr data, sent') \<Rightarrow>
          if workouts_of data = [] then 0
          else scanned_in_page cutoff fromisoformat (workouts_of data) +
               (case scan_page cutoff fromisoformat (workouts_of data) all_workouts of
                  (broke, all_workouts') \<Rightarrow>
                    if broke then 0
                    else scanned_records env server cutoff fromisoformat pages all_workouts' sent'))"

text \<open>
  The exercise entries and the sets of a list of workouts, in order, and the distinct titles
  of a list in the order of their first occurrence (\<open>remdups\<close> keeps the last occurrence
  of each).
\<close>

definition all_exercises :: "workout list \<Rightarrow> exercise_entry list" where
  "all_exercises ws = concat (map exercises_of ws)"

definition all_sets :: "workout list \<Rightarrow> set_entry list" where
  "all_sets ws = concat (map sets_of (all_exercises ws))"

definition first_seen :: "string list \<Rightarrow> string list" where
  "first_seen ts = rev (remdups (rev ts))"

text \<open>
  What one set does to the running total \<open>t\<close>: \<open>t + kg * reps\<close>, or the exception.
\<close>

definition volume_step :: "rounding \<Rightarrow> set_entry \<Rightarrow> pyfloat \<Rightarrow> error + pyfloat" where
  "volume_step rnd s t =
     (case py_mul rnd (kg_of s) (reps_of s) of
        Inl e \<Rightarrow> Inl e
      | Inr p \<Rightarrow> py_add_to_float rnd t p)"

text \<open>
  The real a number denotes, when it is an int or a finite float; the volume of one set in
  exact arithmetic, weight times repetitions with 0 for a missing value; a set whose weight,
  if there is one, is an int or a finite float.
\<close>

definition num_value :: "pynum \<Rightarrow> real option" where
  "num_value v =
     (case v of PyInt k \<Rightarrow> Some (real_of_int k) | PyFloat (Finite x) \<Rightarrow> Some x | PyFloat _ \<Rightarrow> None)"

definition exact_volume :: "set_entry \<Rightarrow> real" where
  "exact_volume s =
     (case weight_kg s of
        None \<Rightarrow> 0
      | Some v \<Rightarrow>
          (case reps s of
             None \<Rightarrow> 0
           | Some n \<Rightarrow> (case num_value v of None \<Rightarrow> 0 | Some x \<Rightarrow> x * real_of_int n)))"

definition finite_weight :: "set_entry \<Rightarrow> bool" where
  "finite_weight s = (case weight_kg s of None \<Rightarrow> True | Some v \<Rightarrow> num_value v \<noteq> None)"

text \<open>
  A real that is a double: rounding leaves it as it is. A float that is one: a double, an
  infinity or NaN, as every float of Python is. A list of sets that the totals go through
  with no rounding: the weights are finite, and the repetitions, the products and the sums
  of the first \<open>n\<close> products, for every \<open>n\<close>, are doubles.
\<close>

definition unrounded :: "rounding \<Rightarrow> real \<Rightarrow> bool" where
  "unrounded rnd x = (rnd x = Finite x)"

definition is_double :: "rounding \<Rightarrow> pyfloat \<Rightarrow> bool" where
  "is_double rnd t = (case t of Finite x \<Rightarrow> unrounded rnd x | _ \<Rightarrow> True)"

definition exact_run :: "rounding \<Rightarrow> set_entry list \<Rightarrow> bool" where
  "exact_run rnd ss =
     (unrounded rnd 0
      \<and> list_all (\<lambda>s. finite_weight s \<and> unrounded rnd (real_of_int (reps_of s))
                        \<and> unrounded rnd (exact_volume s)) ss
      \<and> list_all (\<lambda>n. unrounded rnd (sum_list (map exact_volume (take n ss)))) [0..<Suc (length ss)])"

section \<open>Example data\<close>

text \<open>
  A run on 2024-01-15 at noon UTC with \<open>days = 7\<close>: the cutoff is 2024-01-08 at noon.
  The example parser knows the few texts the example records use.
\<close>

definition example_env :: environ where
  "example_env = [''HEVY_API_KEY'' \<mapsto> ''secret'']"

definition example_client :: client where
  "example_client =
     \<lparr>base_url = ''https://api.hevyapp.com/v1'',
      headers = [(''api-key'', ''secret''),
                 (''Content-Type'', ''application/json''),
                 (''Accept'', ''application/json'')],
      timeout = 30\<rparr>"

definition example_page_request :: "int \<Rightarrow> request" where
  "example_page_request page =
     \<lparr>req_client = example_client, req_verb = GET, req_path = ''/workouts'',
      req_params = Some [(''page'', page), (''pageSize'', 10)], req_json = None\<rparr>"

definition example_now :: int where
  "example_now = 63840916800000000"

definition example_cutoff :: int where
  "example_cutoff = 63840312000000000"

definition example_parser :: iso_parser where
  "example_parser s =
     (if s = ''2024-01-10T09:00:00+00:00'' then Some (Aware 63840474000000000)
      else if s = ''2024-01-08T12:00:00+00:00'' then Some (Aware 63840312000000000)
      else if s = ''2024-01-12T18:30:00+00:00'' then Some (Aware 63840681000000000)
      else if s = ''2024-01-01T09:00:00+00:00'' then Some (Aware 63839696400000000)
      else if s = ''2024-01-10T09:00:00'' then Some (Naive 63840474000000000)
      else None)"

text \<open>A rounding for the examples: exact within the range of the doubles, infinite beyond.\<close>

definition example_rnd :: rounding where
  "example_rnd x =
     (if 2 ^ 1024 \<le> x then PosInf else if x \<le> - (2 ^ 1024) then NegInf else Finite x)"

definition bench_sets :: "set_entry list" where
  "bench_sets =
     [\<lparr>weight_kg = Some (PyInt 80), reps = Some 5\<rparr>,
      \<lparr>weight_kg = Some (PyFloat (Finite 62.5)), reps = None\<rparr>,
      \<lparr>weight_kg = None, reps = Some 12\<rparr>]"

definition push_day :: workout where
  "push_day =
     \<lparr>title = Some ''Push Day'', start_time = Some ''2024-01-10T09:00:00Z'',
      exercises = Some [\<lparr>ex_title = Some ''Bench Press'', sets = Some bench_sets\<rparr>,
                        \<lparr>ex_title = Some ''Dips'', sets = Some [\<lparr>weight_kg = Some (PyFloat (Finite 12.5)), reps = Some 8\<rparr>]\<rparr>]\<rparr>"

definition boundary_day :: workout where
  "boundary_day =
     \<lparr>title = Some ''Leg Day'', start_time = Some ''2024-01-08T12:00:00Z'',
      exercises = Some [\<lparr>ex_title = Some ''Squat'', sets = Some [\<lparr>weight_kg = Some (PyInt 100), reps = Some 3\<rparr>]\<rparr>,
                        \<lparr>ex_title = Some ''Dips'', sets = None\<rparr>,
                        \<lparr>ex_title = Some ''Squat'', sets = Some []\<rparr>]\<rparr>"

definition late_entry :: workout where
  "late_entry =
     \<lparr>title = Some ''Pull Day'', start_time = Some ''2024-01-12T18:30:00Z'', exercises = None\<rparr>"

definition old_day :: workout where
  "old_day =
     \<lparr>title = Some ''Old Day'', start_time = Some ''2024-01-01T09:00:00Z'', exercises = None\<rparr>"

definition garbled_day :: workout where
  "garbled_day =
     \<lparr>title = Some ''Garbled'', start_time = Some ''yesterday'', exercises = None\<rparr>"

definition undated_day :: workout where
  "undated_day = \<lparr>title = Some ''Undated'', start_time = None, exercises = None\<rparr>"

definition blank_day :: workout where
  "blank_day = \<lparr>title = Some ''Blank'', start_time = Some [], exercises = None\<rparr>"

text \<open>A page of eleven records, more than the ten that are asked for.\<close>

definition oversized_page :: "workout list" where
  "oversized_page =
     [push_day, push_day, push_day, push_day, push_day, push_day,
      push_day, push_day, push_day, push_day, push_day]"

text \<open>Two responses: a 404 whose body is not JSON, and a 204 with an empty body.\<close>

definition not_found :: "json_value response" where
  "not_found = \<lparr>status_code = 404, content = ''Not Found'', json = Inl JSONDecodeError\<rparr>"

definition no_content :: "json_value response" where
  "no_content = \<lparr>status_code = 204, content = [], json = Inl JSONDecodeError\<rparr>"

section \<open>The scan of one page\<close>

lemma scan_page_Cons_stale:
  "is_stale cutoff f w \<Longrightarrow> scan_page cutoff f (w # ws) acc = (True, acc)"
  by (auto simp: is_stale_def parsed_start_def split: option.splits pydatetime.splits if_splits)

lemma scan_page_Cons_recent:
  "is_recent cutoff f w \<Longrightarrow> scan_page cutoff f (w # ws) acc = scan_page cutoff f ws (acc @ [w])"
  by (auto simp: is_recent_def parsed_start_def split: option.splits pydatetime.splits if_splits)

lemma scan_page_Cons_skip:
  "\<not> is_recent cutoff f w \<Longrightarrow> \<not> is_stale cutoff f w \<Longrightarrow>
   scan_page cutoff f (w # ws) acc = scan_page cutoff f ws acc"
  by (auto simp: is_recent_def is_stale_def parsed_start_def
           split: option.splits pydatetime.splits if_splits)

lemma recent_not_stale: "is_recent cutoff f w \<Longrightarrow> \<not> is_stale cutoff f w"
  by (auto simp: is_recent_def is_stale_def split: option.splits)

text \<open>
  The inner loop in one equation: it leaves by \<open>break\<close> exactly when the page holds a stale
  record, and it appends the recent records that come before the first stale one.
\<close>

lemma scan_page_eq:
  "scan_page cutoff f ws acc =
     (\<exists>x\<in>set ws. is_stale cutoff f x,
      acc @ filter (is_recent cutoff f) (takeWhile (\<lambda>x. \<not> is_stale cutoff f x) ws))"
proof (induction ws arbitrary: acc)
  case Nil
  show ?case by simp
next
  case (Cons w ws)
  consider (stale) "is_stale cutoff f w"
    | (recent) "is_recent cutoff f w"
    | (skip) "\<not> is_recent cutoff f w" "\<not> is_stale cutoff f w"
    by blast
  then show ?case
  proof cases
    case stale
    then show ?thesis
      by (simp add: scan_page_Cons_stale del: scan_page.simps)
  next
    case recent
    then show ?thesis
      using recent_not_stale [OF recent]
      by (simp add: scan_page_Cons_recent Cons.IH del: scan_page.simps)
  next
    case skip
    then show ?thesis
      by (simp add: scan_page_Cons_skip Cons.IH del: scan_page.simps)
  qed
qed

lemma scan_page_drop_skipped:
  assumes "\<not> is_recent cutoff f w" and "\<not> is_stale cutoff f w"
  shows "scan_page cutoff f (pre @ w # rest) acc = scan_page cutoff f (pre @ rest) acc"
  using assms by (auto simp: scan_page_eq takeWhile_append simp del: scan_page.simps)

lemma api_get_sent:
  "api_get env server path params sent = (r, sent') \<Longrightarrow>
   sent' = sent \<or>
   (\<exists>c. sent' = sent @ [\<lparr>req_client = c, req_verb = GET, req_path = path,
                           req_params = params, req_json = None\<rparr>])"
  by (auto simp: api_get_def send_def split: sum.splits prod.splits)

lemma api_get_Inr_sent:
  "api_get env server path params sent = (Inr d, sent') \<Longrightarrow>
   \<exists>c. sent' = sent @ [\<lparr>req_client = c, req_verb = GET, req_path = path,
                          req_params = params, req_json = None\<rparr>]"
  by (auto simp: api_get_def send_def split: sum.splits prod.splits)

text \<open>A page with records and no stale one: the run goes on with the next page.\<close>

lemma fetch_pages_continue:
  assumes "api_get env server ''/workouts'' (workouts_request_params page) sent = (Inr data, sent1)"
    and "workouts_of data \<noteq> []"
    and "\<not> (\<exists>x\<in>set (workouts_of data). is_stale cutoff f x)"
  shows "fetch_pages env server cutoff f (page # pages) acc sent =
           fetch_pages env server cutoff f pages
             (acc @ filter (is_recent cutoff f) (workouts_of data)) sent1"
proof -
  from assms(3)
  have tw: "takeWhile (\<lambda>x. \<not> is_stale cutoff f x) (workouts_of data) = workouts_of data"
    by simp
  from assms(3) have "scan_page cutoff f (workouts_of data) acc =
      (False, acc @ filter (is_recent cutoff f) (workouts_of data))"
    by (simp add: scan_page_eq tw del: scan_page.simps)
  with assms(1,2) show ?thesis by (simp del: scan_page.simps)
qed

text \<open>The whole run against a sequence of pages.\<close>

lemma api_get_serve_pages:
  assumes "get_client env = Inr c"
  shows "api_get env (serve_pages ps) path params sent =
     (Inr \<lparr>workouts = Some (if length sent < length ps then ps ! length sent else [])\<rparr>,
      sent @ [\<lparr>req_client = c, req_verb = GET, req_path = path, req_params = params,
                req_json = None\<rparr>])"
  using assms by (simp add: api_get_def send_def serve_pages_def raise_for_status_def)

lemma kept_of_pages_Nil [simp]: "kept_of_pages cutoff f [] = []"
  by (simp add: kept_of_pages_def)

lemma kept_of_pages_empty_page [simp]: "kept_of_pages cutoff f ([] # ps) = []"
  by (simp add: kept_of_pages_def)

lemma kept_of_pages_Cons:
  "p \<noteq> [] \<Longrightarrow> kept_of_pages cutoff f (p # ps) =
     (if \<exists>x\<in>set p. is_stale cutoff f x
      then filter (is_recent cutoff f) (takeWhile (\<lambda>x. \<not> is_stale cutoff f x) p)
      else filter (is_recent cutoff f) p @ kept_of_pages cutoff f ps)"
  by (auto simp: kept_of_pages_def)

lemma fetch_pages_serve_pages:
  assumes "get_client env = Inr c"
  shows "fst (fetch_pages env (serve_pages ps) cutoff f pages acc sent) =
           Inr (acc @ kept_of_pages cutoff f (take (length pages) (drop (length sent) ps)))"
proof (induction pages arbitrary: acc sent)
  case Nil
  show ?case by simp
next
  case (Cons page pages)
  let ?p = "if length sent < length ps then ps ! length sent else []"
  let ?req = "\<lparr>req_client = c, req_verb = GET, req_path = ''/workouts'',
                req_params = workouts_request_params page, req_json = None\<rparr>"
  have ag: "api_get env (serve_pages ps) ''/workouts'' (workouts_request_params page) sent =
              (Inr \<lparr>workouts = Some ?p\<rparr>, sent @ [?req])"
    by (rule api_get_serve_pages [OF assms])
  have wo: "workouts_of \<lparr>workouts = Some ?p\<rparr> = ?p"
    by (simp add: workouts_of_def)
  show ?case
  proof (cases "?p = []")
    case True
    then have "kept_of_pages cutoff f (take (length (page # pages)) (drop (length sent) ps)) = []"
      by (cases "length sent < length ps") (simp_all add: Cons_nth_drop_Suc [symmetric])
    with True ag wo show ?thesis by simp
  next
    case False
    then have lt: "length sent < length ps" and p: "?p = ps ! length sent"
      by (simp_all split: if_splits)
    have dr: "take (length (page # pages)) (drop (length sent) ps) =
                ps ! length sent # take (length pages) (drop (Suc (length sent)) ps)"
      using lt by (simp add: Cons_nth_drop_Suc [symmetric])
    show ?thesis
    proof (cases "\<exists>x\<in>set ?p. is_stale cutoff f x")
      case True
      with False ag wo p dr show ?thesis
        by (simp add: scan_page_eq kept_of_pages_Cons del: scan_page.simps)
    next
      case nostale: False
      from Cons.IH [of "acc @ filter (is_recent cutoff f) ?p" "sent @ [?req]"]
      have "fst (fetch_pages env (serve_pages ps) cutoff f pages
                  (acc @ filter (is_recent cutoff f) ?p) (sent @ [?req])) =
            Inr ((acc @ filter (is_recent cutoff f) ?p) @
                 kept_of_pages cutoff f (take (length pages) (drop (Suc (length sent)) ps)))"
        by simp
      moreover from nostale False wo
      have "fetch_pages env (serve_pages ps) cutoff f (page # pages) acc sent =
            fetch_pages env (serve_pages ps) cutoff f pages
              (acc @ filter (is_recent cutoff f) ?p) (sent @ [?req])"
        using fetch_pages_continue [OF ag, of cutoff f pages acc] by simp
      ultimately show ?thesis
        using False nostale p dr by (simp add: kept_of_pages_Cons)
    qed
  qed
qed

section \<open>What the scan keeps\<close>

lemma scan_page_kept:
  "x \<in> set (snd (scan_page cutoff f ws acc)) \<Longrightarrow> x \<in> set acc \<or> is_recent cutoff f x"
  by (auto simp: scan_page_eq simp del: scan_page.simps)

text \<open>Every record the run keeps was in the list at the start or is recent.\<close>

lemma fetch_pages_kept:
  "fetch_pages env server cutoff f pages acc sent = (Inr ws, sent') \<Longrightarrow>
   x \<in> set ws \<Longrightarrow> x \<in> set acc \<or> is_recent cutoff f x"
proof (induction pages arbitrary: acc sent)
  case Nil
  then show ?case by simp
next
  case (Cons page pages)
  show ?case
  proof (cases "api_get env server ''/workouts'' (workouts_request_params page) sent")
    case (Pair r s1)
    show ?thesis
    proof (cases r)
      case (Inl e)
      with Pair Cons.prems show ?thesis by simp
    next
      case (Inr data)
      show ?thesis
      proof (cases "workouts_of data = []")
        case True
        with Pair Inr Cons.prems show ?thesis by simp
      next
        case False
        obtain broke acc' where sp: "scan_page cutoff f (workouts_of data) acc = (broke, acc')"
          by (cases "scan_page cutoff f (workouts_of data) acc")
        have acc': "\<And>y. y \<in> set acc' \<Longrightarrow> y \<in> set acc \<or> is_recent cutoff f y"
          using scan_page_kept [of _ cutoff f "workouts_of data" acc] sp by simp
        show ?thesis
        proof (cases broke)
          case True
          with Pair Inr False sp Cons.prems have "ws = acc'" by simp
          with Cons.prems(2) acc' show ?thesis by blast
        next
          case nb: False
          with Pair Inr False sp Cons.prems
          have "fetch_pages env server cutoff f pages acc' s1 = (Inr ws, sent')" by simp
          from Cons.IH [OF this Cons.prems(2)] acc' show ?thesis by blast
        qed
      qed
    qed
  qed
qed

lemma no_start_not_recent:
  "start_time w = None \<or> start_time w = Some [] \<Longrightarrow>
   \<not> is_recent cutoff f w \<and> \<not> is_stale cutoff f w"
  by (auto simp: is_recent_def is_stale_def parsed_start_def start_of_def)

section \<open>Evaluating the examples\<close>

lemmas example_defs =
  push_day_def boundary_day_def late_entry_def old_day_def garbled_day_def
  undated_day_def blank_day_def example_parser_def example_cutoff_def
  start_of_def replace_Z_def

lemma get_client_example: "get_client example_env = Inr example_client"
  by (simp add: get_client_def example_env_def example_client_def BASE_URL_def)

lemma cutoff_example: "cutoff_time example_now 7 = Inr example_cutoff"
  by (simp add: cutoff_time_def example_now_def example_cutoff_def MAX_DELTA_DAYS_def
        MICROSECONDS_PER_DAY_def MAXORDINAL_def)

lemma serve_pages_always: "always_answers (serve_pages pages)"
  by (simp add: always_answers_def serve_pages_def)

lemmas run_defs =
  page_range_def api_get_def get_client_example send_def serve_pages_def
  raise_for_status_def workouts_of_def workouts_request_params_def

lemma api_get_example:
  "api_get example_env (serve_pages pages) ''/workouts'' (workouts_request_params page) sent =
     (Inr \<lparr>workouts = Some (if length sent < length pages then pages ! length sent else [])\<rparr>,
      sent @ [example_page_request page])"
  by (simp add: api_get_def get_client_example send_def serve_pages_def raise_for_status_def
        example_page_request_def workouts_request_params_def)

lemma example_kinds:
  "is_recent example_cutoff example_parser push_day"
  "is_recent example_cutoff example_parser boundary_day"
  "is_recent example_cutoff example_parser late_entry"
  "is_stale example_cutoff example_parser old_day"
  "\<not> is_stale example_cutoff example_parser push_day"
  "\<not> is_stale example_cutoff example_parser boundary_day"
  by (simp_all add: is_recent_def is_stale_def parsed_start_def example_defs)

section \<open>Records without a start time\<close>

text \<open>
  Claim C10. A fetched record whose \<open>start_time\<close> is missing or is the empty string is
  skipped without a trace: the inner loop gives the same result, the same list and the same
  way of leaving, as on the page without that record, so the record does not end the scan the
  way a stale record does; and no run that starts with an empty list keeps it, so it is in
  none of the totals, which are taken over the kept records only.
\<close>

theorem missing_start_time_is_skipped:
  assumes "start_time w = None \<or> start_time w = Some []"
  shows "scan_page cutoff fromisoformat (pre @ w # rest) all_workouts =
           scan_page cutoff fromisoformat (pre @ rest) all_workouts
         \<and> (\<forall>kept sent'.
               fetch_pages env server cutoff fromisoformat pages [] sent = (Inr kept, sent')
               \<longrightarrow> w \<notin> set kept)"
proof -
  from assms
  have ns: "\<not> is_recent cutoff fromisoformat w" "\<not> is_stale cutoff fromisoformat w"
    using no_start_not_recent by blast+
  have "scan_page cutoff fromisoformat (pre @ w # rest) all_workouts =
          scan_page cutoff fromisoformat (pre @ rest) all_workouts"
    using ns by (rule scan_page_drop_skipped)
  moreover have "w \<notin> set kept"
    if "fetch_pages env server cutoff fromisoformat pages [] sent = (Inr kept, sent')"
    for kept sent'
    using fetch_pages_kept [OF that, of w] ns by auto
  ultimately show ?thesis by blast
qed

text \<open>
  On a page with a recent record, an undated one, a stale one and a recent one out of order,
  the undated record changes nothing: the scan keeps the first record and stops at the stale
  one. In a run over three pages, the second holding nothing but the undated record, the
  scan goes on to the third page and keeps its record.
\<close>

theorem missing_start_time_is_skipped_witness:
  "(start_time undated_day = None \<or> start_time undated_day = Some [])
   \<and> scan_page example_cutoff example_parser
        ([push_day] @ undated_day # [old_day, late_entry]) [] = (True, [push_day])
   \<and> (\<exists>sent'. fetch_pages example_env
                  (serve_pages [[push_day, undated_day], [undated_day], [boundary_day]])
                  example_cutoff example_parser page_range [] []
                = (Inr [push_day, boundary_day], sent'))
   \<and> undated_day \<notin> set [push_day, boundary_day]"
proof -
  have h: "start_time undated_day = None \<or> start_time undated_day = Some []"
    by (simp add: undated_day_def)
  have run: "\<exists>sent'. fetch_pages example_env
                  (serve_pages [[push_day, undated_day], [undated_day], [boundary_day]])
                  example_cutoff example_parser page_range [] []
                = (Inr [push_day, boundary_day], sent')"
    by (simp add: run_defs example_defs)
  have ev: "scan_page example_cutoff example_parser ([push_day] @ [old_day, late_entry]) []
              = (True, [push_day])"
    by (simp add: example_defs)
  from missing_start_time_is_skipped [OF h, of example_cutoff example_parser "[push_day]"
      "[old_day, late_entry]" "[]" example_env
      "serve_pages [[push_day, undated_day], [undated_day], [boundary_day]]" page_range "[]"]
  show ?thesis using h ev run by auto
qed

section \<open>Records whose start time does not parse\<close>

lemma api_get_ok:
  assumes "get_client env = Inr c" and "always_answers server"
  shows "\<exists>d sent'. api_get env server path params sent = (Inr d, sent')"
proof -
  from assms(2) obtain r d
    where "server sent \<lparr>req_client = c, req_verb = GET, req_path = path,
                        req_params = params, req_json = None\<rparr> = Inr r"
      and "200 \<le> status_code r" "status_code r \<le> 299" "json r = Inr d"
    unfolding always_answers_def by blast
  with assms(1) show ?thesis
    by (simp add: api_get_def send_def raise_for_status_def)
qed

text \<open>With the key set and a server that answers, the scan returns a list, whatever the parser does.\<close>

lemma fetch_pages_ok:
  assumes "get_client env = Inr c" and "always_answers server"
  shows "\<exists>ws sent'. fetch_pages env server cutoff f pages acc sent = (Inr ws, sent')"
proof (induction pages arbitrary: acc sent)
  case Nil
  show ?case by simp
next
  case (Cons page pages)
  from api_get_ok [OF assms] obtain d s1
    where ag: "api_get env server ''/workouts'' (workouts_request_params page) sent = (Inr d, s1)"
    by blast
  obtain broke acc' where sp: "scan_page cutoff f (workouts_of d) acc = (broke, acc')"
    by (cases "scan_page cutoff f (workouts_of d) acc")
  from Cons.IH [of acc' s1] ag sp show ?case
    by (cases broke) (auto simp del: scan_page.simps)
qed

text \<open>A record that is neither recent nor stale, on the page fetched: the run takes the page as
  it takes the page without the record.\<close>

lemma fetch_pages_skip_record:
  assumes "api_get env server ''/workouts'' (workouts_request_params page) sent = (Inr data, sent1)"
    and "workouts_of data = pre @ w # rest"
    and "\<not> is_recent cutoff f w" and "\<not> is_stale cutoff f w"
  shows "fetch_pages env server cutoff f (page # pages) acc sent =
           (case scan_page cutoff f (pre @ rest) acc of
              (broke, acc') \<Rightarrow>
                if broke then (Inr acc', sent1)
                else fetch_pages env server cutoff f pages acc' sent1)"
proof -
  have "scan_page cutoff f (workouts_of data) acc = scan_page cutoff f (pre @ rest) acc"
    using assms(2-4) scan_page_drop_skipped [of cutoff f w pre rest acc] by simp
  moreover have "workouts_of data \<noteq> []"
    using assms(2) by simp
  ultimately show ?thesis
    using assms(1) by (simp del: scan_page.simps)
qed

lemma aggregate_example:
  "\<exists>st. aggregate example_rnd [push_day, late_entry] = Inr st"
  by (simp add: aggregate_def add_workout_def add_exercise_def add_set_def exercises_of_def
        sets_of_def kg_of_def reps_of_def py_truthy_def py_mul_def py_add_to_float_def
        float_of_int_def example_rnd_def push_day_def late_entry_def bench_sets_def)

text \<open>
  Claim C7. A record whose \<open>start_time\<close> is a text that \<open>fromisoformat\<close> rejects (after
  every \<open>Z\<close> is replaced by \<open>+00:00\<close>) is skipped, and the scan goes on with the next record.
  \<^item> The inner loop gives the same result, the same list and the same way of leaving, as on
    the page without that record.
  \<^item> When the page fetched holds such a record, the run takes the page as it takes the rest
    of the page: it ends there only if another record of the page is stale, and goes on with
    the pages still to come otherwise, also when the page holds nothing but that record.
  \<^item> No text makes the tool raise. With the cutoff computed, the key set and a server that
    answers every request, the scan returns a list of kept records for every parser, every
    kept record is recent, so parsed, and the tool returns the message for no workouts or what
    the totals and the summary of the kept records give: the only exception left is one of
    the arithmetic of the totals over the kept records.
\<close>

theorem malformed_start_time_is_skipped:
  "(start_of w \<noteq> [] \<and> fromisoformat (replace_Z (start_of w)) = None \<longrightarrow>
      scan_page cutoff fromisoformat (pre @ w # rest) all_workouts =
        scan_page cutoff fromisoformat (pre @ rest) all_workouts)
   \<and> (start_of w \<noteq> [] \<and> fromisoformat (replace_Z (start_of w)) = None
        \<and> api_get env server ''/workouts'' (workouts_request_params page) sent = (Inr data, sent1)
        \<and> workouts_of data = pre @ w # rest
      \<longrightarrow> fetch_pages env server cutoff fromisoformat (page # pages) all_workouts sent =
            (case scan_page cutoff fromisoformat (pre @ rest) all_workouts of
               (broke, all_workouts') \<Rightarrow>
                 if broke then (Inr all_workouts', sent1)
                 else fetch_pages env server cutoff fromisoformat pages all_workouts' sent1))
   \<and> (cutoff_time now days = Inr cutoff \<and> get_client env = Inr c \<and> always_answers server \<longrightarrow>
        (\<exists>kept sent2.
           fetch_pages env server cutoff fromisoformat page_range [] sent = (Inr kept, sent2)
           \<and> (\<forall>x\<in>set kept. is_recent cutoff fromisoformat x)
           \<and> analyze_recent_workouts env server now fromisoformat rnd format_volume days sent =
               (if kept = [] then Inr (no_activity_message days)
                else (case aggregate rnd kept of
                        Inl e \<Rightarrow> Inl e
                      | Inr st \<Rightarrow> Inr (join_lines (summary_lines format_volume days kept st))),
                sent2)))"
proof (intro conjI impI)
  assume "start_of w \<noteq> [] \<and> fromisoformat (replace_Z (start_of w)) = None"
  then have "\<not> is_recent cutoff fromisoformat w" "\<not> is_stale cutoff fromisoformat w"
    by (simp_all add: is_recent_def is_stale_def parsed_start_def)
  then show "scan_page cutoff fromisoformat (pre @ w # rest) all_workouts =
        scan_page cutoff fromisoformat (pre @ rest) all_workouts"
    by (rule scan_page_drop_skipped)
next
  assume a: "start_of w \<noteq> [] \<and> fromisoformat (replace_Z (start_of w)) = None
        \<and> api_get env server ''/workouts'' (workouts_request_params page) sent = (Inr data, sent1)
        \<and> workouts_of data = pre @ w # rest"
  then have "\<not> is_recent cutoff fromisoformat w" "\<not> is_stale cutoff fromisoformat w"
    by (simp_all add: is_recent_def is_stale_def parsed_start_def)
  with a show "fetch_pages env server cutoff fromisoformat (page # pages) all_workouts sent =
            (case scan_page cutoff fromisoformat (pre @ rest) all_workouts of
               (broke, all_workouts') \<Rightarrow>
                 if broke then (Inr all_workouts', sent1)
                 else fetch_pages env server cutoff fromisoformat pages all_workouts' sent1)"
    using fetch_pages_skip_record [of env server page sent data sent1 pre w rest cutoff
        fromisoformat pages all_workouts]
    by blast
next
  assume a: "cutoff_time now days = Inr cutoff \<and> get_client env = Inr c \<and> always_answers server"
  then obtain kept sent2
    where fp: "fetch_pages env server cutoff fromisoformat page_range [] sent = (Inr kept, sent2)"
    using fetch_pages_ok [of env c server cutoff fromisoformat page_range "[]" sent] by blast
  have rec: "\<forall>x\<in>set kept. is_recent cutoff fromisoformat x"
    using fetch_pages_kept [OF fp] by auto
  have "analyze_recent_workouts env server now fromisoformat rnd format_volume days sent =
               (if kept = [] then Inr (no_activity_message days)
                else (case aggregate rnd kept of
                        Inl e \<Rightarrow> Inl e
                      | Inr st \<Rightarrow> Inr (join_lines (summary_lines format_volume days kept st))),
                sent2)"
    using a fp by (simp add: analyze_recent_workouts_def split: sum.splits)
  with fp rec show "\<exists>kept sent2.
           fetch_pages env server cutoff fromisoformat page_range [] sent = (Inr kept, sent2)
           \<and> (\<forall>x\<in>set kept. is_recent cutoff fromisoformat x)
           \<and> analyze_recent_workouts env server now fromisoformat rnd format_volume days sent =
               (if kept = [] then Inr (no_activity_message days)
                else (case aggregate rnd kept of
                        Inl e \<Rightarrow> Inl e
                      | Inr st \<Rightarrow> Inr (join_lines (summary_lines format_volume days kept st))),
                sent2)"
    by blast
qed

text \<open>
  A page with a garbled record between two recent ones and a stale one at the end: the scan
  keeps both recent records and stops at the stale one, as without the garbled record. A run
  over three pages, the first with a garbled record and a recent one, the second with
  nothing but a garbled record, the third with a recent record: the run goes through the
  second page, keeps the record of the third, stops at the empty fourth page, and the tool
  returns a text.
\<close>

theorem malformed_start_time_is_skipped_witness:
  "start_of garbled_day \<noteq> [] \<and> example_parser (replace_Z (start_of garbled_day)) = None
   \<and> scan_page example_cutoff example_parser
        ([push_day] @ garbled_day # [boundary_day, old_day]) [] = (True, [push_day, boundary_day])
   \<and> api_get example_env (serve_pages [[garbled_day, push_day], [garbled_day], [late_entry]])
        ''/workouts'' (workouts_request_params 2) [example_page_request 1]
       = (Inr \<lparr>workouts = Some [garbled_day]\<rparr>, [example_page_request 1, example_page_request 2])
   \<and> fetch_pages example_env (serve_pages [[garbled_day, push_day], [garbled_day], [late_entry]])
        example_cutoff example_parser (2 # [3, 4, 5]) [push_day] [example_page_request 1]
       = (Inr [push_day, late_entry], map example_page_request [1, 2, 3, 4])
   \<and> cutoff_time example_now 7 = Inr example_cutoff
   \<and> get_client example_env = Inr example_client
   \<and> always_answers (serve_pages [[garbled_day, push_day], [garbled_day], [late_entry]])
   \<and> fetch_pages example_env (serve_pages [[garbled_day, push_day], [garbled_day], [late_entry]])
        example_cutoff example_parser page_range [] []
       = (Inr [push_day, late_entry], map example_page_request [1, 2, 3, 4])
   \<and> (\<exists>text. analyze_recent_workouts example_env
                (serve_pages [[garbled_day, push_day], [garbled_day], [late_entry]])
                example_now example_parser example_rnd (\<lambda>v. ''?'') 7 []
              = (Inr text, map example_page_request [1, 2, 3, 4]))"
proof -
  let ?server = "serve_pages [[garbled_day, push_day], [garbled_day], [late_entry]]"
  have h1: "start_of garbled_day \<noteq> [] \<and> example_parser (replace_Z (start_of garbled_day)) = None"
    by (simp add: example_defs)
  have h2: "api_get example_env ?server ''/workouts'' (workouts_request_params 2)
              [example_page_request 1]
            = (Inr \<lparr>workouts = Some [garbled_day]\<rparr>, [example_page_request 1, example_page_request 2])
            \<and> workouts_of \<lparr>workouts = Some [garbled_day]\<rparr> = [] @ garbled_day # []"
    by (simp add: api_get_example workouts_of_def)
  have h3: "cutoff_time example_now 7 = Inr example_cutoff
            \<and> get_client example_env = Inr example_client
            \<and> always_answers ?server"
    by (simp add: cutoff_example get_client_example serve_pages_always)
  have ev: "scan_page example_cutoff example_parser ([push_day] @ [boundary_day, old_day]) []
              = (True, [push_day, boundary_day])"
    by (simp add: example_defs)
  have run: "fetch_pages example_env ?server example_cutoff example_parser page_range [] []
               = (Inr [push_day, late_entry], map example_page_request [1, 2, 3, 4])"
    by (simp add: page_range_def api_get_example workouts_of_def example_defs)
  note inst = malformed_start_time_is_skipped [where w = garbled_day
      and fromisoformat = example_parser and cutoff = example_cutoff and env = example_env
      and server = ?server and now = example_now and days = 7 and c = example_client
      and rnd = example_rnd and format_volume = "\<lambda>v. ''?''"]
  have c1: "scan_page example_cutoff example_parser
        ([push_day] @ garbled_day # [boundary_day, old_day]) [] = (True, [push_day, boundary_day])"
    using inst [where pre = "[push_day]" and rest = "[boundary_day, old_day]"
        and all_workouts = "[]"] h1 ev by simp
  have "fetch_pages example_env ?server example_cutoff example_parser (2 # [3, 4, 5]) [push_day]
          [example_page_request 1]
        = (case scan_page example_cutoff example_parser ([] @ []) [push_day] of
             (broke, all_workouts') \<Rightarrow>
               if broke then (Inr all_workouts', [example_page_request 1, example_page_request 2])
               else fetch_pages example_env ?server example_cutoff example_parser [3, 4, 5]
                      all_workouts' [example_page_request 1, example_page_request 2])"
    using inst [where pre = "[]" and rest = "[]" and all_workouts = "[push_day]" and page = 2
        and sent = "[example_page_request 1]" and data = "\<lparr>workouts = Some [garbled_day]\<rparr>"
        and ?sent1.0 = "[example_page_request 1, example_page_request 2]"
        and pages = "[3, 4, 5]"] h1 h2
    by blast
  also have "\<dots> = (Inr [push_day, late_entry], map example_page_request [1, 2, 3, 4])"
    by (simp add: api_get_example workouts_of_def example_defs)
  finally have c2: "fetch_pages example_env ?server example_cutoff example_parser (2 # [3, 4, 5])
                      [push_day] [example_page_request 1]
                    = (Inr [push_day, late_entry], map example_page_request [1, 2, 3, 4])" .
  from inst [where sent = "[]"] h3 obtain kept sent2
    where k: "fetch_pages example_env ?server example_cutoff example_parser page_range [] []
                = (Inr kept, sent2)"
      and t: "analyze_recent_workouts example_env ?server example_now example_parser example_rnd
                (\<lambda>v. ''?'') 7 [] =
               (if kept = [] then Inr (no_activity_message 7)
                else (case aggregate example_rnd kept of
                        Inl e \<Rightarrow> Inl e
                      | Inr st \<Rightarrow> Inr (join_lines (summary_lines (\<lambda>v. ''?'') 7 kept st))),
                sent2)"
    by blast
  from k run have kv: "kept = [push_day, late_entry]" "sent2 = map example_page_request [1, 2, 3, 4]"
    by simp_all
  from aggregate_example obtain st where "aggregate example_rnd [push_day, late_entry] = Inr st"
    by blast
  with t kv have c3: "\<exists>text. analyze_recent_workouts example_env ?server example_now
      example_parser example_rnd (\<lambda>v. ''?'') 7 [] = (Inr text, map example_page_request [1, 2, 3, 4])"
    by simp
  from h1 c1 h2 c2 h3 run c3 show ?thesis by simp
qed

section \<open>Stopping at the first stale record\<close>

lemma scan_page_prefix: "prefix acc (snd (scan_page cutoff f ws acc))"
  by (simp add: scan_page_eq del: scan_page.simps)

lemma fetch_pages_prefix:
  "fetch_pages env server cutoff f pages acc sent = (Inr ws, sent') \<Longrightarrow> prefix acc ws"
proof (induction pages arbitrary: acc sent)
  case Nil
  then show ?case by simp
next
  case (Cons page pages)
  obtain r s1 where ag: "api_get env server ''/workouts'' (workouts_request_params page) sent = (r, s1)"
    by (cases "api_get env server ''/workouts'' (workouts_request_params page) sent")
  show ?case
  proof (cases r)
    case (Inl e)
    with ag Cons.prems show ?thesis by simp
  next
    case (Inr data)
    obtain broke acc' where sp: "scan_page cutoff f (workouts_of data) acc = (broke, acc')"
      by (cases "scan_page cutoff f (workouts_of data) acc")
    have p: "prefix acc acc'"
      using scan_page_prefix [of acc cutoff f "workouts_of data"] sp by simp
    show ?thesis
    proof (cases "workouts_of data = [] \<or> broke")
      case True
      with ag Inr sp Cons.prems p show ?thesis by (auto split: if_splits)
    next
      case False
      with ag Inr sp Cons.prems
      have "fetch_pages env server cutoff f pages acc' s1 = (Inr ws, sent')" by simp
      from Cons.IH [OF this] p show ?thesis by (rule prefix_order.trans [rotated])
    qed
  qed
qed

text \<open>
  Claim C1. A record is recent when its parsed start time is at or after the cutoff and
  stale when it is strictly before it.
  \<^item> The inner loop leaves by \<open>break\<close> exactly when the page holds a stale record, and it
    appends to the kept list the recent records that come before the first stale one, in
    order: every recent record it reaches is kept, and nothing after the first stale record
    is looked at.
  \<^item> When the page fetched holds a stale record, \<open>w\<close> being the first one, the run ends with the
    recent records before \<open>w\<close> added to the kept list. The result depends neither on the records
    \<open>rest\<close> after \<open>w\<close> nor on the pages \<open>pages\<close> still to come, whatever they would hold, and the
    requests sent are those sent before plus the one for this page: no later page is fetched.
  \<^item> What is kept stays kept: the list a run starts with is a prefix of the list it ends with.
  \<^item> When the page fetched has records and none of them is stale, the run goes on with the
    pages still to come, from the kept list with the recent records of this page added.
  \<^item> For every sequence of pages \<open>ps\<close> served in turn, a run with the key set returns
    \<open>kept_of_pages\<close> of the first five pages it is served: of the records of the pages before
    the first empty one, in order, the recent ones that come before the first stale record.
\<close>

theorem stale_record_stops_scan:
  "scan_page cutoff fromisoformat ws all_workouts =
     (\<exists>x\<in>set ws. is_stale cutoff fromisoformat x,
      all_workouts @ filter (is_recent cutoff fromisoformat)
                       (takeWhile (\<lambda>x. \<not> is_stale cutoff fromisoformat x) ws))
   \<and> (api_get env server ''/workouts'' (workouts_request_params page) sent = (Inr data, sent1)
        \<and> workouts_of data = pre @ w # rest
        \<and> (\<forall>x\<in>set pre. \<not> is_stale cutoff fromisoformat x)
        \<and> is_stale cutoff fromisoformat w
      \<longrightarrow> fetch_pages env server cutoff fromisoformat (page # pages) all_workouts sent =
            (Inr (all_workouts @ filter (is_recent cutoff fromisoformat) pre), sent1)
          \<and> length sent1 = Suc (length sent))
   \<and> (fetch_pages env server cutoff fromisoformat pages all_workouts sent = (Inr kept, sent2)
      \<longrightarrow> prefix all_workouts kept)
   \<and> (api_get env server ''/workouts'' (workouts_request_params page) sent = (Inr data, sent1)
        \<and> workouts_of data \<noteq> []
        \<and> \<not> (\<exists>x\<in>set (workouts_of data). is_stale cutoff fromisoformat x)
      \<longrightarrow> fetch_pages env server cutoff fromisoformat (page # pages) all_workouts sent =
            fetch_pages env server cutoff fromisoformat pages
              (all_workouts @ filter (is_recent cutoff fromisoformat) (workouts_of data)) sent1)
   \<and> (get_client env = Inr c
      \<longrightarrow> fst (fetch_pages env (serve_pages ps) cutoff fromisoformat page_range [] sent) =
            Inr (kept_of_pages cutoff fromisoformat (take 5 (drop (length sent) ps))))"
proof (intro conjI impI)
  show "scan_page cutoff fromisoformat ws all_workouts =
     (\<exists>x\<in>set ws. is_stale cutoff fromisoformat x,
      all_workouts @ filter (is_recent cutoff fromisoformat)
                       (takeWhile (\<lambda>x. \<not> is_stale cutoff fromisoformat x) ws))"
    by (rule scan_page_eq)
next
  assume a: "api_get env server ''/workouts'' (workouts_request_params page) sent = (Inr data, sent1)
        \<and> workouts_of data = pre @ w # rest
        \<and> (\<forall>x\<in>set pre. \<not> is_stale cutoff fromisoformat x)
        \<and> is_stale cutoff fromisoformat w"
  then have tw: "takeWhile (\<lambda>x. \<not> is_stale cutoff fromisoformat x) (pre @ w # rest) = pre"
    by (simp add: takeWhile_append)
  from a have sp: "scan_page cutoff fromisoformat (workouts_of data) all_workouts =
      (True, all_workouts @ filter (is_recent cutoff fromisoformat) pre)"
    by (simp add: scan_page_eq tw del: scan_page.simps)
  from a sp show "fetch_pages env server cutoff fromisoformat (page # pages) all_workouts sent =
            (Inr (all_workouts @ filter (is_recent cutoff fromisoformat) pre), sent1)"
    by (simp del: scan_page.simps)
  from a show "length sent1 = Suc (length sent)"
    using api_get_Inr_sent [of env server "''/workouts''" "workouts_request_params page" sent data sent1]
    by auto
next
  assume "fetch_pages env server cutoff fromisoformat pages all_workouts sent = (Inr kept, sent2)"
  then show "prefix all_workouts kept" by (rule fetch_pages_prefix)
next
  assume "api_get env server ''/workouts'' (workouts_request_params page) sent = (Inr data, sent1)
        \<and> workouts_of data \<noteq> []
        \<and> \<not> (\<exists>x\<in>set (workouts_of data). is_stale cutoff fromisoformat x)"
  then show "fetch_pages env server cutoff fromisoformat (page # pages) all_workouts sent =
            fetch_pages env server cutoff fromisoformat pages
              (all_workouts @ filter (is_recent cutoff fromisoformat) (workouts_of data)) sent1"
    using fetch_pages_continue [of env server page sent data sent1 cutoff fromisoformat pages all_workouts]
    by blast
next
  assume "get_client env = Inr c"
  have len: "length page_range = 5" by (simp add: page_range_def)
  from fetch_pages_serve_pages [OF \<open>get_client env = Inr c\<close>, of ps cutoff fromisoformat page_range "[]" sent]
  show "fst (fetch_pages env (serve_pages ps) cutoff fromisoformat page_range [] sent) =
            Inr (kept_of_pages cutoff fromisoformat (take 5 (drop (length sent) ps)))"
    by (simp add: len)
qed

text \<open>
  In the first run the first page holds a recent record, one exactly at the cutoff, a stale
  one and then a recent one out of order, and the second page holds a recent record: the run
  keeps the first two records and sends one request. In the second run the first page holds
  a recent record and the second a stale one followed by a recent one: the record of the
  first page is kept, the run stops on the second page and sends two requests.
\<close>

theorem stale_record_stops_scan_witness:
  "api_get example_env (serve_pages [[push_day, boundary_day, old_day, late_entry], [late_entry]])
      ''/workouts'' (workouts_request_params 1) []
     = (Inr \<lparr>workouts = Some [push_day, boundary_day, old_day, late_entry]\<rparr>, [example_page_request 1])
   \<and> \<not> is_stale example_cutoff example_parser push_day
   \<and> \<not> is_stale example_cutoff example_parser boundary_day
   \<and> is_stale example_cutoff example_parser old_day
   \<and> is_recent example_cutoff example_parser late_entry
   \<and> fetch_pages example_env
        (serve_pages [[push_day, boundary_day, old_day, late_entry], [late_entry]])
        example_cutoff example_parser [1, 2, 3, 4, 5] [] []
     = (Inr [push_day, boundary_day], [example_page_request 1])
   \<and> api_get example_env (serve_pages [[push_day], [old_day, late_entry]])
      ''/workouts'' (workouts_request_params 1) []
     = (Inr \<lparr>workouts = Some [push_day]\<rparr>, [example_page_request 1])
   \<and> fetch_pages example_env (serve_pages [[push_day], [old_day, late_entry]])
        example_cutoff example_parser [1, 2, 3, 4, 5] [] []
     = (Inr [push_day], [example_page_request 1, example_page_request 2])
   \<and> get_client example_env = Inr example_client
   \<and> kept_of_pages example_cutoff example_parser
        (take 5 (drop (length ([] :: request list)) [[push_day], [old_day, late_entry]])) = [push_day]"
proof -
  let ?server = "serve_pages [[push_day, boundary_day, old_day, late_entry], [late_entry]]"
  let ?data = "\<lparr>workouts = Some [push_day, boundary_day, old_day, late_entry]\<rparr>"
  let ?server2 = "serve_pages [[push_day], [old_day, late_entry]]"
  let ?data2 = "\<lparr>workouts = Some [push_day]\<rparr>"
  have h1: "api_get example_env ?server ''/workouts'' (workouts_request_params 1) []
              = (Inr ?data, [example_page_request 1])"
    by (simp add: api_get_example)
  have h2: "workouts_of ?data = [push_day, boundary_day] @ old_day # [late_entry]"
    by (simp add: workouts_of_def)
  have h3: "\<forall>x\<in>set [push_day, boundary_day]. \<not> is_stale example_cutoff example_parser x"
    by (simp add: example_kinds)
  have h4: "is_stale example_cutoff example_parser old_day"
    by (simp add: example_kinds)
  have run1: "fetch_pages example_env ?server example_cutoff example_parser (1 # [2, 3, 4, 5]) [] []
          = (Inr ([] @ filter (is_recent example_cutoff example_parser) [push_day, boundary_day]),
             [example_page_request 1])"
    using stale_record_stops_scan [of example_cutoff example_parser _ "[]" example_env ?server 1 "[]"
        ?data "[example_page_request 1]" "[push_day, boundary_day]" old_day "[late_entry]"
        "[2, 3, 4, 5]"] h1 h2 h3 h4
    by blast
  have g1: "api_get example_env ?server2 ''/workouts'' (workouts_request_params 1) []
              = (Inr ?data2, [example_page_request 1])"
    by (simp add: api_get_example)
  have g2: "workouts_of ?data2 \<noteq> []
            \<and> \<not> (\<exists>x\<in>set (workouts_of ?data2). is_stale example_cutoff example_parser x)"
    by (simp add: workouts_of_def example_kinds)
  have "fetch_pages example_env ?server2 example_cutoff example_parser (1 # [2, 3, 4, 5]) [] []
          = fetch_pages example_env ?server2 example_cutoff example_parser [2, 3, 4, 5]
              ([] @ filter (is_recent example_cutoff example_parser) (workouts_of ?data2))
              [example_page_request 1]"
    using stale_record_stops_scan [of example_cutoff example_parser _ "[]" example_env ?server2 1 "[]"
        ?data2 "[example_page_request 1]" _ _ _ "[2, 3, 4, 5]"] g1 g2
    by blast
  also have "\<dots> = (Inr [push_day], [example_page_request 1, example_page_request 2])"
    by (simp add: api_get_example workouts_of_def example_defs is_recent_def parsed_start_def)
  finally have run2: "fetch_pages example_env ?server2 example_cutoff example_parser
                        [1, 2, 3, 4, 5] [] []
                      = (Inr [push_day], [example_page_request 1, example_page_request 2])" .
  have k: "kept_of_pages example_cutoff example_parser
        (take 5 (drop (length ([] :: request list)) [[push_day], [old_day, late_entry]])) = [push_day]"
    by (simp add: kept_of_pages_def example_kinds)
  from run1 run2 h1 h3 h4 g1 k show ?thesis
    by (simp add: example_kinds get_client_example)
qed

section \<open>The bound on fetching\<close>

lemma page_view:
  "request_view \<lparr>req_client = c, req_verb = GET, req_path = ''/workouts'',
                  req_params = workouts_request_params page, req_json = None\<rparr>
   = page_request_view page"
  by (simp add: request_view_def page_request_view_def workouts_request_params_def)

lemma fetch_pages_requests:
  "fetch_pages env server cutoff f pages acc sent = (r, sent') \<Longrightarrow>
   \<exists>n xs. n \<le> length pages \<and> sent' = sent @ xs
          \<and> map request_view xs = map page_request_view (take n pages)"
proof (induction pages arbitrary: acc sent)
  case Nil
  then show ?case by simp
next
  case (Cons page pages)
  let ?req = "\<lambda>c. \<lparr>req_client = c, req_verb = GET, req_path = ''/workouts'',
                    req_params = workouts_request_params page, req_json = None\<rparr>"
  let ?goal = "\<lambda>s. \<exists>n xs. n \<le> length (page # pages) \<and> s = sent @ xs
                  \<and> map request_view xs = map page_request_view (take n (page # pages))"
  obtain r1 s1 where ag: "api_get env server ''/workouts'' (workouts_request_params page) sent = (r1, s1)"
    by (cases "api_get env server ''/workouts'' (workouts_request_params page) sent")
  have first: "?goal s1"
  proof -
    from api_get_sent [OF ag]
    consider (none) "s1 = sent" | (one) c where "s1 = sent @ [?req c]"
      by blast
    then show ?thesis
    proof cases
      case none
      have "0 \<le> length (page # pages) \<and> s1 = sent @ []
            \<and> map request_view [] = map page_request_view (take 0 (page # pages))"
        using none by simp
      then show ?thesis by blast
    next
      case one
      have "Suc 0 \<le> length (page # pages) \<and> s1 = sent @ [?req c]
            \<and> map request_view [?req c] = map page_request_view (take (Suc 0) (page # pages))"
        using one by (simp add: page_view)
      then show ?thesis by blast
    qed
  qed
  show ?case
  proof (cases r1)
    case (Inl e)
    with ag Cons.prems have "sent' = s1" by simp
    with first show ?thesis by simp
  next
    case (Inr data)
    obtain broke acc' where sp: "scan_page cutoff f (workouts_of data) acc = (broke, acc')"
      by (cases "scan_page cutoff f (workouts_of data) acc")
    show ?thesis
    proof (cases "workouts_of data = [] \<or> broke")
      case True
      with ag Inr sp Cons.prems have "sent' = s1" by (auto split: if_splits)
      with first show ?thesis by simp
    next
      case False
      with ag Inr sp Cons.prems
      have rec: "fetch_pages env server cutoff f pages acc' s1 = (r, sent')" by simp
      from Cons.IH [OF rec] obtain n xs
        where n: "n \<le> length pages" "sent' = s1 @ xs"
          "map request_view xs = map page_request_view (take n pages)"
        by blast
      from ag Inr
      have "api_get env server ''/workouts'' (workouts_request_params page) sent = (Inr data, s1)"
        by simp
      from api_get_Inr_sent [OF this] obtain c where s1: "s1 = sent @ [?req c]"
        by blast
      have "Suc n \<le> length (page # pages) \<and> sent' = sent @ (?req c # xs)
            \<and> map request_view (?req c # xs) = map page_request_view (take (Suc n) (page # pages))"
        using n s1 by (simp add: page_view)
      then show ?thesis by blast
    qed
  qed
qed

text \<open>The requests of one call of the tool: the first \<open>n\<close> page requests, for some \<open>n\<close> up to 5.\<close>

lemma analyze_requests:
  "\<exists>n xs. n \<le> 5
     \<and> snd (analyze_recent_workouts env server now f rnd fmt days sent) = sent @ xs
     \<and> map request_view xs = map page_request_view (take n [1, 2, 3, 4, 5])"
proof (cases "cutoff_time now days")
  case (Inl e)
  then show ?thesis
    by (intro exI [of _ 0] exI [of _ "[]"]) (simp add: analyze_recent_workouts_def)
next
  case (Inr cutoff)
  obtain r sent' where fp: "fetch_pages env server cutoff f page_range [] sent = (r, sent')"
    by (cases "fetch_pages env server cutoff f page_range [] sent")
  from fetch_pages_requests [OF fp] obtain n xs
    where nx: "n \<le> length page_range" "sent' = sent @ xs"
      "map request_view xs = map page_request_view (take n page_range)"
    by blast
  then have "n \<le> 5" "sent' = sent @ xs"
      "map request_view xs = map page_request_view (take n [1, 2, 3, 4, 5])"
    by (simp_all add: page_range_def)
  moreover from Inr fp have "snd (analyze_recent_workouts env server now f rnd fmt days sent) = sent'"
    by (simp add: analyze_recent_workouts_def split: sum.splits)
  ultimately show ?thesis by blast
qed

lemma scanned_in_page_le: "scanned_in_page cutoff f ws \<le> length ws"
  by (induction ws) (auto split: option.splits pydatetime.splits)

lemma api_get_Inr_server:
  "api_get env server path params sent = (Inr d, sent') \<Longrightarrow>
   \<exists>sent0 req r. server sent0 req = Inr r \<and> json r = Inr d"
  by (auto simp: api_get_def send_def raise_for_status_def split: sum.splits prod.splits if_splits)

lemma scanned_records_le:
  assumes "\<forall>sent req r d. server sent req = Inr r \<and> json r = Inr d \<longrightarrow> length (workouts_of d) \<le> m"
  shows "scanned_records env server cutoff f pages acc sent \<le> m * length pages"
proof (induction pages arbitrary: acc sent)
  case Nil
  show ?case by simp
next
  case (Cons page pages)
  obtain r1 s1 where ag: "api_get env server ''/workouts'' (workouts_request_params page) sent = (r1, s1)"
    by (cases "api_get env server ''/workouts'' (workouts_request_params page) sent")
  show ?case
  proof (cases r1)
    case (Inl e)
    with ag show ?thesis by simp
  next
    case (Inr data)
    from ag Inr
    have "api_get env server ''/workouts'' (workouts_request_params page) sent = (Inr data, s1)"
      by simp
    from api_get_Inr_server [OF this] obtain sent0 req r
      where "server sent0 req = Inr r \<and> json r = Inr data"
      by blast
    with assms have "length (workouts_of data) \<le> m" by blast
    with scanned_in_page_le [of cutoff f "workouts_of data"]
    have le: "scanned_in_page cutoff f (workouts_of data) \<le> m" by simp
    obtain broke acc' where sp: "scan_page cutoff f (workouts_of data) acc = (broke, acc')"
      by (cases "scan_page cutoff f (workouts_of data) acc")
    from Cons.IH [of acc' s1] le ag Inr sp show ?thesis
      by (simp del: scan_page.simps scanned_in_page.simps)
  qed
qed

text \<open>
  The fetching, for every server and every list of requests sent before:
  \<^item> what \<open>analyze_recent_workouts\<close> sends is, for some \<open>n \<le> 5\<close>, the GET requests to
    \<open>/workouts\<close> for the pages 1 to \<open>n\<close> in this order, each with \<open>pageSize\<close> 10: at most
    five fetches, whatever the server still holds;
  \<^item> a page with no records ends the fetching: the run returns the list kept so far with no
    further request;
  \<^item> when no page the server returns holds more than the 10 records asked for
    (\<open>honours_page_size\<close>), at most 50 records are scanned.
\<close>

lemma fetching_is_bounded:
  "(\<exists>n xs. n \<le> 5
      \<and> snd (analyze_recent_workouts env server now fromisoformat rnd format_volume days sent) = sent @ xs
      \<and> map request_view xs = map page_request_view (take n [1, 2, 3, 4, 5]))
   \<and> (api_get env server ''/workouts'' (workouts_request_params page) sent = (Inr data, sent1)
        \<and> workouts_of data = []
      \<longrightarrow> fetch_pages env server cutoff fromisoformat (page # pages) all_workouts sent
            = (Inr all_workouts, sent1))
   \<and> (honours_page_size server
      \<longrightarrow> scanned_records env server cutoff fromisoformat page_range [] sent \<le> 50)"
proof (intro conjI impI)
  show "\<exists>n xs. n \<le> 5
      \<and> snd (analyze_recent_workouts env server now fromisoformat rnd format_volume days sent) = sent @ xs
      \<and> map request_view xs = map page_request_view (take n [1, 2, 3, 4, 5])"
    by (rule analyze_requests)
next
  assume "api_get env server ''/workouts'' (workouts_request_params page) sent = (Inr data, sent1)
        \<and> workouts_of data = []"
  then show "fetch_pages env server cutoff fromisoformat (page # pages) all_workouts sent
            = (Inr all_workouts, sent1)"
    by simp
next
  assume "honours_page_size server"
  then have "\<forall>sent0 req r d. server sent0 req = Inr r \<and> json r = Inr d
               \<longrightarrow> length (workouts_of d) \<le> 10"
    by (simp add: honours_page_size_def)
  from scanned_records_le [OF this, of env cutoff fromisoformat page_range "[]" sent]
  show "scanned_records env server cutoff fromisoformat page_range [] sent \<le> 50"
    by (simp add: page_range_def)
qed

lemma oversized_scanned: "scanned_in_page example_cutoff example_parser oversized_page = 11"
  by (simp add: oversized_page_def example_defs)

lemma oversized_scan:
  "scan_page example_cutoff example_parser oversized_page acc = (False, acc @ oversized_page)"
  by (simp add: oversized_page_def example_defs)

lemma oversized_not_empty: "oversized_page \<noteq> []"
  by (simp add: oversized_page_def)

lemma oversized_length: "length oversized_page = 11"
  by (simp add: oversized_page_def)

text \<open>
  Claim C2 has the tool fetch at most five pages, from page 1 on with page size 10, scan at
  most 50 records, and stop at an empty page and at the fifth page, for every sequence of
  responses. The fetching is as claimed (\<open>fetching_is_bounded\<close>), and the comment in the
  code says \<open>up to 50 workouts\<close>. But the loop over a page runs over every record the
  server returned and never cuts the page to the 10 records asked for: against a server
  that answers each of the five requests with eleven recent records, 55 records are scanned
  and 55 are kept.
\<close>

theorem oversized_pages_are_scanned_whole:
  "scanned_records example_env
      (serve_pages [oversized_page, oversized_page, oversized_page, oversized_page, oversized_page])
      example_cutoff example_parser page_range [] [] = 55
   \<and> fetch_pages example_env
      (serve_pages [oversized_page, oversized_page, oversized_page, oversized_page, oversized_page])
      example_cutoff example_parser page_range [] []
     = (Inr (oversized_page @ oversized_page @ oversized_page @ oversized_page @ oversized_page),
        map example_page_request [1, 2, 3, 4, 5])
   \<and> length (oversized_page @ oversized_page @ oversized_page @ oversized_page @ oversized_page) = 55"
  by (simp add: page_range_def api_get_example workouts_of_def
        oversized_scanned oversized_scan oversized_not_empty oversized_length
        del: scan_page.simps scanned_in_page.simps)

text \<open>
  A server with one page of two records and nothing after it: the tool asks for page 1 and
  page 2 and stops at the empty page 2. A server with seven pages of one record: the tool
  asks for the pages 1 to 5 and stops.
\<close>

lemma fetching_is_bounded_example:
  "snd (analyze_recent_workouts example_env (serve_pages [[push_day, garbled_day]])
          example_now example_parser example_rnd (\<lambda>v. ''?'') 7 [])
     = [example_page_request 1, example_page_request 2]
   \<and> snd (analyze_recent_workouts example_env
            (serve_pages [[push_day], [push_day], [push_day], [push_day], [push_day], [push_day], [push_day]])
            example_now example_parser example_rnd (\<lambda>v. ''?'') 7 [])
     = map example_page_request [1, 2, 3, 4, 5]
   \<and> api_get example_env (serve_pages [[push_day, garbled_day]]) ''/workouts''
        (workouts_request_params 2) [example_page_request 1]
     = (Inr \<lparr>workouts = Some []\<rparr>, [example_page_request 1, example_page_request 2])
   \<and> workouts_of \<lparr>workouts = Some []\<rparr> = []
   \<and> fetch_pages example_env (serve_pages [[push_day, garbled_day]]) example_cutoff example_parser
        (2 # [3, 4, 5]) [push_day] [example_page_request 1]
     = (Inr [push_day], [example_page_request 1, example_page_request 2])
   \<and> honours_page_size (serve_pages [[push_day, garbled_day]])
   \<and> scanned_records example_env (serve_pages [[push_day, garbled_day]]) example_cutoff
        example_parser page_range [] [] \<le> 50"
proof -
  let ?server = "serve_pages [[push_day, garbled_day]]"
  have r1: "snd (analyze_recent_workouts example_env ?server
          example_now example_parser example_rnd (\<lambda>v. ''?'') 7 [])
     = [example_page_request 1, example_page_request 2]"
    by (simp add: analyze_recent_workouts_def cutoff_example page_range_def api_get_example
          workouts_of_def example_defs split: sum.splits)
  have r2: "snd (analyze_recent_workouts example_env
            (serve_pages [[push_day], [push_day], [push_day], [push_day], [push_day], [push_day], [push_day]])
            example_now example_parser example_rnd (\<lambda>v. ''?'') 7 [])
     = map example_page_request [1, 2, 3, 4, 5]"
    by (simp add: analyze_recent_workouts_def cutoff_example page_range_def api_get_example
          workouts_of_def example_defs split: sum.splits)
  have h1: "api_get example_env ?server ''/workouts''
        (workouts_request_params 2) [example_page_request 1]
     = (Inr \<lparr>workouts = Some []\<rparr>, [example_page_request 1, example_page_request 2])
     \<and> workouts_of \<lparr>workouts = Some []\<rparr> = []"
    by (simp add: api_get_example workouts_of_def)
  have h2: "honours_page_size ?server"
    by (auto simp: honours_page_size_def serve_pages_def workouts_of_def)
  from fetching_is_bounded [of example_env ?server example_now example_parser example_rnd "\<lambda>v. ''?''" 7 "[example_page_request 1]"
      2 "\<lparr>workouts = Some []\<rparr>" "[example_page_request 1, example_page_request 2]"
      example_cutoff "[3, 4, 5]" "[push_day]"] h1 h2
  have "fetch_pages example_env ?server example_cutoff example_parser
        (2 # [3, 4, 5]) [push_day] [example_page_request 1]
     = (Inr [push_day], [example_page_request 1, example_page_request 2])"
    by blast
  moreover
  from fetching_is_bounded [of example_env ?server example_now example_parser example_rnd "\<lambda>v. ''?''" 7 "[]"
      2 "\<lparr>workouts = Some []\<rparr>" "[example_page_request 1, example_page_request 2]"
      example_cutoff "[3, 4, 5]" "[push_day]"] h2
  have "scanned_records example_env ?server example_cutoff example_parser page_range [] [] \<le> 50"
    by blast
  ultimately show ?thesis using r1 r2 h1 h2 by blast
qed

section \<open>The total volume\<close>

lemma fold_raising_append:
  "fold_raising body (xs @ ys) st =
     (case fold_raising body xs st of Inl e \<Rightarrow> Inl e | Inr st' \<Rightarrow> fold_raising body ys st')"
  by (induction xs arbitrary: st) (simp_all split: sum.splits)

lemma add_set_total:
  "volume_step rnd s (total_volume_kg st) = map_sum id total_volume_kg (add_set rnd s st)"
  by (simp add: add_set_def volume_step_def split: sum.splits)

lemma fold_add_set_total:
  "fold_raising (volume_step rnd) ss (total_volume_kg st) =
     map_sum id total_volume_kg (fold_raising (add_set rnd) ss st)"
  by (induction ss arbitrary: st) (simp_all add: add_set_total split: sum.splits)

lemma add_exercise_total:
  "fold_raising (volume_step rnd) (sets_of ex) (total_volume_kg st) =
     map_sum id total_volume_kg (add_exercise rnd ex st)"
  using fold_add_set_total [of rnd "sets_of ex" "st\<lparr>exercise_counts := bump (ex_title_of ex) (exercise_counts st)\<rparr>"]
  by (simp add: add_exercise_def)

lemma fold_add_exercise_total:
  "fold_raising (volume_step rnd) (concat (map sets_of exs)) (total_volume_kg st) =
     map_sum id total_volume_kg (fold_raising (add_exercise rnd) exs st)"
  by (induction exs arbitrary: st)
     (simp_all add: fold_raising_append add_exercise_total split: sum.splits)

lemma add_workout_total:
  "fold_raising (volume_step rnd) (concat (map sets_of (exercises_of w))) (total_volume_kg st) =
     map_sum id total_volume_kg (add_workout rnd w st)"
  by (simp add: add_workout_def fold_add_exercise_total)

lemma fold_add_workout_total:
  "fold_raising (volume_step rnd) (all_sets ws) (total_volume_kg st) =
     map_sum id total_volume_kg (fold_raising (add_workout rnd) ws st)"
proof (induction ws arbitrary: st)
  case Nil
  show ?case by (simp add: all_sets_def all_exercises_def)
next
  case (Cons w ws)
  have split: "all_sets (w # ws) = concat (map sets_of (exercises_of w)) @ all_sets ws"
    by (simp add: all_sets_def all_exercises_def)
  show ?case
    by (simp add: split fold_raising_append add_workout_total Cons.IH split: sum.splits)
qed

lemma aggregate_total:
  "map_sum id total_volume_kg (aggregate rnd kept) =
     fold_raising (volume_step rnd) (all_sets kept) (Finite 0)"
  using fold_add_workout_total [of rnd kept "\<lparr>total_sets = 0, total_volume_kg = Finite 0, exercise_counts = []\<rparr>"]
  by (simp add: aggregate_def)

lemma fadd_zero: "is_double rnd t \<Longrightarrow> fadd rnd t (Finite 0) = t"
  by (cases t) (simp_all add: is_double_def unrounded_def)

lemma missing_value_step:
  assumes "unrounded rnd 0" and "is_double rnd t" and "finite_weight s"
    and "weight_kg s = None \<or> reps s = None"
  shows "volume_step rnd s t = Inr t"
proof (cases "weight_kg s")
  case None
  with assms(1,2) show ?thesis
    by (simp add: volume_step_def kg_of_def py_mul_def py_add_to_float_def float_of_int_def
          unrounded_def fadd_zero)
next
  case (Some v)
  with assms(4) have r: "reps_of s = 0" by (simp add: reps_of_def)
  show ?thesis
  proof (cases v)
    case (PyInt k)
    with Some r assms(1,2) show ?thesis
      by (simp add: volume_step_def kg_of_def py_mul_def py_add_to_float_def float_of_int_def
            unrounded_def fadd_zero py_truthy_def)
  next
    case (PyFloat f)
    with Some assms(3) obtain x where "f = Finite x"
      by (cases f) (simp_all add: finite_weight_def num_value_def)
    with PyFloat Some r assms(1,2) show ?thesis
      by (simp add: volume_step_def kg_of_def py_mul_def py_add_to_float_def float_of_int_def
            unrounded_def fadd_zero py_truthy_def)
  qed
qed

lemma missing_value_adds_nothing:
  assumes "unrounded rnd 0" and "is_double rnd (total_volume_kg st)" and "finite_weight s"
    and "weight_kg s = None \<or> reps s = None"
  shows "add_set rnd s st = Inr (st\<lparr>total_sets := total_sets st + 1\<rparr>)"
proof -
  from missing_value_step [OF assms]
  have "volume_step rnd s (total_volume_kg st) = Inr (total_volume_kg st)" .
  then show ?thesis
    by (auto simp: add_set_def volume_step_def split: sum.splits)
qed

lemma exact_step:
  assumes "unrounded rnd 0" and "finite_weight s"
    and "unrounded rnd (real_of_int (reps_of s))" and "unrounded rnd (exact_volume s)"
    and "unrounded rnd (t + exact_volume s)"
  shows "volume_step rnd s (Finite t) = Inr (Finite (t + exact_volume s))"
proof (cases "weight_kg s")
  case None
  with assms show ?thesis
    by (simp add: volume_step_def kg_of_def py_mul_def py_add_to_float_def float_of_int_def
          unrounded_def exact_volume_def)
next
  case (Some v)
  show ?thesis
  proof (cases v)
    case (PyInt k)
    have "real_of_int (k * reps_of s) = exact_volume s"
      using Some PyInt by (simp add: exact_volume_def reps_of_def num_value_def split: option.splits)
    with Some PyInt assms show ?thesis
      by (auto simp: volume_step_def kg_of_def py_mul_def py_add_to_float_def float_of_int_def
            unrounded_def py_truthy_def)
  next
    case (PyFloat f)
    with Some assms(2) obtain x where f: "f = Finite x"
      by (cases f) (simp_all add: finite_weight_def num_value_def)
    have "x * real_of_int (reps_of s) = exact_volume s"
      using Some PyFloat f by (simp add: exact_volume_def reps_of_def num_value_def split: option.splits)
    with Some PyFloat f assms show ?thesis
      by (auto simp: volume_step_def kg_of_def py_mul_def py_add_to_float_def float_of_int_def
            unrounded_def py_truthy_def)
  qed
qed

lemma exact_fold:
  assumes "unrounded rnd 0"
  shows "\<forall>s\<in>set ss. finite_weight s \<and> unrounded rnd (real_of_int (reps_of s))
                      \<and> unrounded rnd (exact_volume s) \<Longrightarrow>
         \<forall>n\<le>length ss. unrounded rnd (t + sum_list (map exact_volume (take n ss))) \<Longrightarrow>
         fold_raising (volume_step rnd) ss (Finite t) =
           Inr (Finite (t + sum_list (map exact_volume ss)))"
proof (induction ss arbitrary: t)
  case Nil
  show ?case by simp
next
  case (Cons s ss)
  have "Suc 0 \<le> length (s # ss)" by simp
  with Cons.prems(2)
  have "unrounded rnd (t + sum_list (map exact_volume (take (Suc 0) (s # ss))))" by blast
  then have one: "unrounded rnd (t + exact_volume s)" by simp
  from Cons.prems(1) one assms
  have step: "volume_step rnd s (Finite t) = Inr (Finite (t + exact_volume s))"
    by (intro exact_step) simp_all
  have "\<forall>n\<le>length ss. unrounded rnd (t + exact_volume s + sum_list (map exact_volume (take n ss)))"
  proof (intro allI impI)
    fix n assume "n \<le> length ss"
    then have "Suc n \<le> length (s # ss)" by simp
    with Cons.prems(2)
    have "unrounded rnd (t + sum_list (map exact_volume (take (Suc n) (s # ss))))" by blast
    then show "unrounded rnd (t + exact_volume s + sum_list (map exact_volume (take n ss)))"
      by (simp add: add.assoc)
  qed
  with Cons.IH [of "t + exact_volume s"] Cons.prems(1) step show ?case
    by (simp add: add.assoc)
qed

lemma exact_run_total:
  assumes "exact_run rnd (all_sets kept)"
  shows "\<exists>st. aggregate rnd kept = Inr st
           \<and> total_volume_kg st = Finite (sum_list (map exact_volume (all_sets kept)))"
proof -
  from assms have z: "unrounded rnd 0"
    and a: "\<forall>s\<in>set (all_sets kept). finite_weight s \<and> unrounded rnd (real_of_int (reps_of s))
                      \<and> unrounded rnd (exact_volume s)"
    and b: "\<forall>n\<le>length (all_sets kept).
              unrounded rnd (0 + sum_list (map exact_volume (take n (all_sets kept))))"
    by (auto simp: exact_run_def list_all_iff)
  from exact_fold [OF z a b]
  have "fold_raising (volume_step rnd) (all_sets kept) (Finite 0) =
          Inr (Finite (sum_list (map exact_volume (all_sets kept))))"
    by simp
  with aggregate_total [of rnd kept] show ?thesis
    by (cases "aggregate rnd kept") auto
qed

text \<open>
  Claim C3, as amended. The total volume is a float, and the loop adds to it with the
  arithmetic of Python's numbers.
  \<^item> A set whose \<open>weight_kg\<close> or \<open>reps\<close> is absent adds exactly 0, provided its weight, if it
    has one, is an int or a finite float: the loop body leaves the total as it was (for every
    rounding that leaves 0 as it is, and every total that is a double, an infinity or NaN).
  \<^item> The total volume of the kept records, or the exception in its place, is what adding
    \<open>kg * reps\<close> to the running total, from \<open>0.0\<close> on, gives over all sets of all exercise
    entries of all kept records in order: the sum in floating point.
  \<^item> When nothing is rounded on the way (\<open>exact_run\<close>), no exception is raised and the total
    is the sum over these sets of weight times repetitions, with 0 for a set that lacks
    either.
\<close>

theorem volume_is_float_sum_over_sets:
  "(unrounded rnd 0 \<and> is_double rnd (total_volume_kg st) \<and> finite_weight s
      \<and> (weight_kg s = None \<or> reps s = None)
    \<longrightarrow> add_set rnd s st = Inr (st\<lparr>total_sets := total_sets st + 1\<rparr>))
   \<and> map_sum id total_volume_kg (aggregate rnd kept) =
       fold_raising (volume_step rnd) (all_sets kept) (Finite 0)
   \<and> (exact_run rnd (all_sets kept)
    \<longrightarrow> (\<exists>totals. aggregate rnd kept = Inr totals
           \<and> total_volume_kg totals = Finite (sum_list (map exact_volume (all_sets kept)))))"
  using missing_value_adds_nothing [of rnd st s] aggregate_total [of rnd kept]
    exact_run_total [of rnd kept]
  by blast

text \<open>
  The claim as stated fails for a weight that is infinite, as \<open>json\<close> reads \<open>1e999\<close>: with
  the repetitions absent the set adds \<open>inf * 0\<close>, which is NaN, and a total of 400 becomes
  NaN.
\<close>

theorem infinite_weight_counterexample:
  "add_set example_rnd \<lparr>weight_kg = Some (PyFloat PosInf), reps = None\<rparr>
     \<lparr>total_sets = 1, total_volume_kg = Finite 400, exercise_counts = []\<rparr>
   = Inr \<lparr>total_sets = 2, total_volume_kg = NaN, exercise_counts = []\<rparr>"
  by (simp add: add_set_def kg_of_def reps_of_def py_truthy_def py_mul_def py_add_to_float_def
        float_of_int_def example_rnd_def)

lemmas total_defs =
  aggregate_def add_workout_def add_exercise_def add_set_def exercises_of_def sets_of_def
  kg_of_def reps_of_def py_truthy_def py_mul_def py_add_to_float_def float_of_int_def
  example_rnd_def

lemma aggregate_two_days: "aggregate example_rnd [push_day, boundary_day] =
  Inr \<lparr>total_sets = 5, total_volume_kg = Finite 800,
       exercise_counts = [(''Bench Press'', 1), (''Dips'', 2), (''Squat'', 2)]\<rparr>"
  by (simp add: total_defs ex_title_of_def push_day_def boundary_day_def bench_sets_def)

lemma exact_run_two_days: "exact_run example_rnd (all_sets [push_day, boundary_day])"
  by (simp add: exact_run_def all_sets_def all_exercises_def exercises_of_def sets_of_def
        push_day_def boundary_day_def bench_sets_def unrounded_def example_rnd_def
        finite_weight_def num_value_def exact_volume_def reps_of_def upt_rec)

text \<open>
  A set with a weight of 62.5 and no repetitions leaves a total of 400 at 400. The two example
  workouts have five sets, two of them lacking a value, and nothing is rounded:
  80 * 5 + 12.5 * 8 + 100 * 3 = 800.
\<close>

theorem volume_is_float_sum_over_sets_witness:
  "unrounded example_rnd 0
   \<and> is_double example_rnd (Finite 400)
   \<and> finite_weight \<lparr>weight_kg = Some (PyFloat (Finite 62.5)), reps = None\<rparr>
   \<and> reps \<lparr>weight_kg = Some (PyFloat (Finite 62.5)), reps = None\<rparr> = None
   \<and> add_set example_rnd \<lparr>weight_kg = Some (PyFloat (Finite 62.5)), reps = None\<rparr>
        \<lparr>total_sets = 1, total_volume_kg = Finite 400, exercise_counts = [(''Bench Press'', 1)]\<rparr>
       = Inr \<lparr>total_sets = 2, total_volume_kg = Finite 400, exercise_counts = [(''Bench Press'', 1)]\<rparr>
   \<and> exact_run example_rnd (all_sets [push_day, boundary_day])
   \<and> map_sum id total_volume_kg (aggregate example_rnd [push_day, boundary_day]) = Inr (Finite 800)
   \<and> fold_raising (volume_step example_rnd) (all_sets [push_day, boundary_day]) (Finite 0)
       = Inr (Finite 800)
   \<and> sum_list (map exact_volume (all_sets [push_day, boundary_day])) = 800"
proof -
  let ?s = "\<lparr>weight_kg = Some (PyFloat (Finite 62.5)), reps = None\<rparr>"
  let ?st = "\<lparr>total_sets = 1, total_volume_kg = Finite 400, exercise_counts = [(''Bench Press'', 1)]\<rparr>"
  have h1: "unrounded example_rnd 0 \<and> is_double example_rnd (total_volume_kg ?st)
            \<and> finite_weight ?s \<and> (weight_kg ?s = None \<or> reps ?s = None)"
    by (simp add: unrounded_def is_double_def example_rnd_def finite_weight_def num_value_def)
  have h2: "exact_run example_rnd (all_sets [push_day, boundary_day])"
    by (rule exact_run_two_days)
  have ev: "sum_list (map exact_volume (all_sets [push_day, boundary_day])) = 800"
    by (simp add: all_sets_def all_exercises_def exercises_of_def sets_of_def exact_volume_def
          num_value_def push_day_def boundary_day_def bench_sets_def)
  note inst = volume_is_float_sum_over_sets [of example_rnd ?st ?s "[push_day, boundary_day]"]
  from inst h1 have c1: "add_set example_rnd ?s ?st = Inr (?st\<lparr>total_sets := total_sets ?st + 1\<rparr>)"
    by blast
  from inst h2 obtain totals
    where t: "aggregate example_rnd [push_day, boundary_day] = Inr totals"
      "total_volume_kg totals = Finite (sum_list (map exact_volume (all_sets [push_day, boundary_day])))"
    by blast
  from inst have c2: "map_sum id total_volume_kg (aggregate example_rnd [push_day, boundary_day]) =
       fold_raising (volume_step example_rnd) (all_sets [push_day, boundary_day]) (Finite 0)"
    by blast
  from t ev have c3: "map_sum id total_volume_kg (aggregate example_rnd [push_day, boundary_day])
                      = Inr (Finite 800)"
    by simp
  from h1 h2 c1 c2 c3 ev show ?thesis by simp
qed

section \<open>The most frequent exercises\<close>

lemma fold_add_set_counts:
  "fold_raising (add_set rnd) ss st = Inr st' \<Longrightarrow> exercise_counts st' = exercise_counts st"
proof (induction ss arbitrary: st)
  case Nil
  then show ?case by simp
next
  case (Cons s ss)
  from Cons.prems obtain st1 where s1: "add_set rnd s st = Inr st1"
    and r: "fold_raising (add_set rnd) ss st1 = Inr st'"
    by (auto split: sum.splits)
  from s1 have "exercise_counts st1 = exercise_counts st"
    by (auto simp: add_set_def split: sum.splits)
  with Cons.IH [OF r] show ?case by simp
qed

lemma add_exercise_counts:
  "add_exercise rnd ex st = Inr st' \<Longrightarrow>
   exercise_counts st' = bump (ex_title_of ex) (exercise_counts st)"
  using fold_add_set_counts
    [of rnd "sets_of ex" "st\<lparr>exercise_counts := bump (ex_title_of ex) (exercise_counts st)\<rparr>" st']
  by (simp add: add_exercise_def)

lemma fold_add_exercise_counts:
  "fold_raising (add_exercise rnd) exs st = Inr st' \<Longrightarrow>
   exercise_counts st' = fold bump (map ex_title_of exs) (exercise_counts st)"
proof (induction exs arbitrary: st)
  case Nil
  then show ?case by simp
next
  case (Cons ex exs)
  from Cons.prems obtain st1 where s1: "add_exercise rnd ex st = Inr st1"
    and r: "fold_raising (add_exercise rnd) exs st1 = Inr st'"
    by (auto split: sum.splits)
  from Cons.IH [OF r] add_exercise_counts [OF s1] show ?case by simp
qed

lemma fold_add_workout_counts:
  "fold_raising (add_workout rnd) ws st = Inr st' \<Longrightarrow>
   exercise_counts st' = fold bump (map ex_title_of (all_exercises ws)) (exercise_counts st)"
proof (induction ws arbitrary: st)
  case Nil
  then show ?case by (simp add: all_exercises_def)
next
  case (Cons w ws)
  from Cons.prems obtain st1 where s1: "add_workout rnd w st = Inr st1"
    and r: "fold_raising (add_workout rnd) ws st1 = Inr st'"
    by (auto split: sum.splits)
  from s1 have "exercise_counts st1 = fold bump (map ex_title_of (exercises_of w)) (exercise_counts st)"
    by (simp add: add_workout_def fold_add_exercise_counts)
  with Cons.IH [OF r] show ?case by (simp add: all_exercises_def)
qed

lemma aggregate_counts:
  "aggregate rnd ws = Inr st \<Longrightarrow>
   exercise_counts st = fold bump (map ex_title_of (all_exercises ws)) []"
  using fold_add_workout_counts
    [of rnd ws "\<lparr>total_sets = 0, total_volume_kg = Finite 0, exercise_counts = []\<rparr>" st]
  by (simp add: aggregate_def)

lemma bump_absent:
  "k \<notin> fst ` set cs \<Longrightarrow> bump k cs = cs @ [(k, 1)]"
  by (induction cs) auto

lemma bump_present:
  "k \<in> set ks \<Longrightarrow> distinct ks \<Longrightarrow>
   bump k (map (\<lambda>t. (t, g t)) ks) = map (\<lambda>t. (t, if t = k then g t + 1 else g t)) ks"
  by (induction ks) (auto simp: bump_absent image_iff)

lemma first_seen_snoc:
  "first_seen (ts @ [k]) = (if k \<in> set ts then first_seen ts else first_seen ts @ [k])"
  by (simp add: first_seen_def)

lemma set_first_seen: "set (first_seen ts) = set ts"
  by (simp add: first_seen_def)

lemma distinct_first_seen: "distinct (first_seen ts)"
  by (simp add: first_seen_def)

lemma fold_bump:
  "fold bump ts [] = map (\<lambda>t. (t, count_list ts t)) (first_seen ts)"
proof (induction ts rule: rev_induct)
  case Nil
  show ?case by (simp add: first_seen_def)
next
  case (snoc k ts)
  show ?case
  proof (cases "k \<in> set ts")
    case True
    then have "k \<in> set (first_seen ts)" by (simp add: set_first_seen)
    from bump_present [OF this distinct_first_seen, of "count_list ts"] True
    show ?thesis
      by (simp add: snoc.IH first_seen_snoc)
  next
    case False
    then have "k \<notin> fst ` set (map (\<lambda>t. (t, count_list ts t)) (first_seen ts))"
      by (auto simp: set_first_seen)
    from bump_absent [OF this] False
    show ?thesis
      by (auto simp: snoc.IH first_seen_snoc set_first_seen)
  qed
qed

text \<open>The listing is the stable sort by descending count, cut after its tenth entry.\<close>

lemma sorted_ex_stable_sort:
  "\<exists>ordered. sorted_ex counts = take 10 ordered
     \<and> length ordered = length counts
     \<and> set ordered = set counts
     \<and> sorted_wrt (\<lambda>a b. snd b \<le> snd a) ordered
     \<and> (\<forall>c. filter (\<lambda>x. snd x = c) ordered = filter (\<lambda>x. snd x = c) counts)"
proof -
  let ?L = "sort_key (\<lambda>x. - int (snd x)) counts"
  have "sorted (map (\<lambda>x. - int (snd x)) ?L)"
    by (rule sorted_sort_key)
  then have s: "sorted_wrt (\<lambda>a b. snd b \<le> snd a) ?L"
    by (simp add: sorted_map)
  have f: "filter (\<lambda>x. snd x = c) ?L = filter (\<lambda>x. snd x = c) counts" for c
  proof -
    have "filter (\<lambda>x. - int (snd x) = - int c) ?L = filter (\<lambda>x. - int (snd x) = - int c) counts"
      by (rule sort_key_stable)
    then show ?thesis by simp
  qed
  have "sorted_ex counts = take 10 ?L \<and> length ?L = length counts \<and> set ?L = set counts"
    by (simp add: sorted_ex_def)
  with s f show ?thesis by blast
qed

lemma sorted_ex_length: "length (sorted_ex counts) = min 10 (length counts)"
  by (simp add: sorted_ex_def min.commute)

lemma frequency_section_lines:
  "frequency_section counts =
     (if counts = [] then []
      else [[], ''**Most frequent exercises:**'']
           @ map (\<lambda>x. ''  '' @ bullet @ '' '' @ fst x @ '': '' @ str_nat (snd x) @ ''x'')
                 (sorted_ex counts))"
  by (simp add: frequency_section_def exercise_line_def)

text \<open>
  Claim C4. For the kept records \<open>kept\<close> whose totals \<open>st\<close> are computed without an
  exception, with \<open>exercise_counts st\<close> the dictionary of counts:
  \<^item> the dictionary holds the distinct titles of the exercise entries of the kept records in
    the order in which they are first seen, each with the number of exercise entries that
    have this title: one per exercise entry, whatever the number of its sets;
  \<^item> the listing \<open>sorted_ex\<close> is the first 10 entries of a list that has the entries of the
    dictionary, all of them, sorted by descending count, the entries of one count in the order
    they have in the dictionary: the stable sort, which is the one list of this kind;
  \<^item> the listing has 10 entries, or all of them when the dictionary has fewer;
  \<^item> the section rendered is nothing for an empty dictionary, and else an empty line, the
    heading and one line per entry of the listing, in order, with the title and the count;
  \<^item> the text the tool returns for kept records ends with this section, after the header, the
    three totals and one line per kept record.
\<close>

theorem frequency_listing:
  "aggregate rnd kept = Inr st \<longrightarrow>
     exercise_counts st =
       map (\<lambda>t. (t, count_list (map ex_title_of (all_exercises kept)) t))
           (first_seen (map ex_title_of (all_exercises kept)))
     \<and> (\<exists>ordered. sorted_ex (exercise_counts st) = take 10 ordered
          \<and> length ordered = length (exercise_counts st)
          \<and> set ordered = set (exercise_counts st)
          \<and> sorted_wrt (\<lambda>a b. snd b \<le> snd a) ordered
          \<and> (\<forall>c. filter (\<lambda>x. snd x = c) ordered = filter (\<lambda>x. snd x = c) (exercise_counts st)))
     \<and> length (sorted_ex (exercise_counts st)) = min 10 (length (exercise_counts st))
     \<and> frequency_section (exercise_counts st) =
         (if exercise_counts st = [] then []
          else [[], ''**Most frequent exercises:**'']
               @ map (\<lambda>x. ''  '' @ bullet @ '' '' @ fst x @ '': '' @ str_nat (snd x) @ ''x'')
                     (sorted_ex (exercise_counts st)))
     \<and> (cutoff_time now days = Inr cutoff
        \<and> fetch_pages env server cutoff fromisoformat page_range [] sent = (Inr kept, sent1)
        \<and> kept \<noteq> []
        \<longrightarrow> analyze_recent_workouts env server now fromisoformat rnd format_volume days sent =
              (Inr (join_lines
                 ([header_line days, [],
                   ''Total workouts: '' @ str_nat (length kept),
                   ''Total sets: '' @ str_nat (total_sets st),
                   ''Total volume: '' @ format_volume (total_volume_kg st) @ '' kg'',
                   [],
                   ''**Workouts:**'']
                  @ map workout_line kept
                  @ (if exercise_counts st = [] then []
                     else [[], ''**Most frequent exercises:**'']
                          @ map (\<lambda>x. ''  '' @ bullet @ '' '' @ fst x @ '': '' @ str_nat (snd x) @ ''x'')
                                (sorted_ex (exercise_counts st))))),
               sent1))"
proof (intro impI conjI)
  assume a: "aggregate rnd kept = Inr st"
  show "exercise_counts st =
       map (\<lambda>t. (t, count_list (map ex_title_of (all_exercises kept)) t))
           (first_seen (map ex_title_of (all_exercises kept)))"
    using aggregate_counts [OF a] by (simp add: fold_bump)
  show "\<exists>ordered. sorted_ex (exercise_counts st) = take 10 ordered
          \<and> length ordered = length (exercise_counts st)
          \<and> set ordered = set (exercise_counts st)
          \<and> sorted_wrt (\<lambda>a b. snd b \<le> snd a) ordered
          \<and> (\<forall>c. filter (\<lambda>x. snd x = c) ordered = filter (\<lambda>x. snd x = c) (exercise_counts st))"
    by (rule sorted_ex_stable_sort)
  show "length (sorted_ex (exercise_counts st)) = min 10 (length (exercise_counts st))"
    by (rule sorted_ex_length)
  show "frequency_section (exercise_counts st) =
         (if exercise_counts st = [] then []
          else [[], ''**Most frequent exercises:**'']
               @ map (\<lambda>x. ''  '' @ bullet @ '' '' @ fst x @ '': '' @ str_nat (snd x) @ ''x'')
                     (sorted_ex (exercise_counts st)))"
    by (rule frequency_section_lines)
  assume b: "cutoff_time now days = Inr cutoff
        \<and> fetch_pages env server cutoff fromisoformat page_range [] sent = (Inr kept, sent1)
        \<and> kept \<noteq> []"
  with a show "analyze_recent_workouts env server now fromisoformat rnd format_volume days sent =
              (Inr (join_lines
                 ([header_line days, [],
                   ''Total workouts: '' @ str_nat (length kept),
                   ''Total sets: '' @ str_nat (total_sets st),
                   ''Total volume: '' @ format_volume (total_volume_kg st) @ '' kg'',
                   [],
                   ''**Workouts:**'']
                  @ map workout_line kept
                  @ (if exercise_counts st = [] then []
                     else [[], ''**Most frequent exercises:**'']
                          @ map (\<lambda>x. ''  '' @ bullet @ '' '' @ fst x @ '': '' @ str_nat (snd x) @ ''x'')
                                (sorted_ex (exercise_counts st))))),
               sent1)"
    by (simp add: analyze_recent_workouts_def summary_lines_def frequency_section_lines
          del: join_lines.simps)
qed

lemma two_days_run:
  "fetch_pages example_env (serve_pages [[push_day, boundary_day]]) example_cutoff example_parser
     page_range [] [] = (Inr [push_day, boundary_day], [example_page_request 1, example_page_request 2])"
  by (simp add: page_range_def api_get_example workouts_of_def example_defs)

lemma str_nat_small:
  "str_nat 1 = ''1''" "str_nat (Suc 0) = ''1''" "str_nat 2 = ''2''" "str_nat 5 = ''5''"
  by (simp_all add: str_nat.simps)

lemma str_nat_length_2: "str_nat (Suc (Suc 0)) = ''2''"
  using str_nat_small(3) by (simp add: numeral_2_eq_2)

text \<open>
  The two example workouts have the exercise entries Bench Press (three sets), Dips (one
  set), Squat, Dips (no sets), Squat: Dips and Squat are counted twice and are listed first,
  Dips before Squat since it was seen first. The tool, run against a server with these two
  records, returns the summary ending with the three lines.
\<close>

theorem frequency_listing_witness:
  "aggregate example_rnd [push_day, boundary_day]
     = Inr \<lparr>total_sets = 5, total_volume_kg = Finite 800,
            exercise_counts = [(''Bench Press'', 1), (''Dips'', 2), (''Squat'', 2)]\<rparr>
   \<and> map ex_title_of (all_exercises [push_day, boundary_day])
     = [''Bench Press'', ''Dips'', ''Squat'', ''Dips'', ''Squat'']
   \<and> sorted_ex [(''Bench Press'', 1), (''Dips'', 2), (''Squat'', 2)]
     = [(''Dips'', 2), (''Squat'', 2), (''Bench Press'', 1)]
   \<and> frequency_section [(''Bench Press'', 1), (''Dips'', 2), (''Squat'', 2)]
     = [[], ''**Most frequent exercises:**'',
        ''  '' @ bullet @ '' Dips: 2x'',
        ''  '' @ bullet @ '' Squat: 2x'',
        ''  '' @ bullet @ '' Bench Press: 1x'']
   \<and> cutoff_time example_now 7 = Inr example_cutoff
   \<and> fetch_pages example_env (serve_pages [[push_day, boundary_day]]) example_cutoff
        example_parser page_range [] []
       = (Inr [push_day, boundary_day], [example_page_request 1, example_page_request 2])
   \<and> analyze_recent_workouts example_env (serve_pages [[push_day, boundary_day]]) example_now
        example_parser example_rnd (\<lambda>v. ''800.0'') 7 []
       = (Inr (join_lines
                 [header_line 7, [],
                  ''Total workouts: 2'',
                  ''Total sets: 5'',
                  ''Total volume: 800.0 kg'',
                  [],
                  ''**Workouts:**'',
                  workout_line push_day,
                  workout_line boundary_day,
                  [],
                  ''**Most frequent exercises:**'',
                  ''  '' @ bullet @ '' Dips: 2x'',
                  ''  '' @ bullet @ '' Squat: 2x'',
                  ''  '' @ bullet @ '' Bench Press: 1x'']),
          [example_page_request 1, example_page_request 2])"
proof -
  let ?st = "\<lparr>total_sets = 5, total_volume_kg = Finite 800,
            exercise_counts = [(''Bench Press'', 1), (''Dips'', 2), (''Squat'', 2)]\<rparr>"
  have h1: "aggregate example_rnd [push_day, boundary_day] = Inr ?st"
    by (rule aggregate_two_days)
  have h2: "cutoff_time example_now 7 = Inr example_cutoff
            \<and> fetch_pages example_env (serve_pages [[push_day, boundary_day]]) example_cutoff
                example_parser page_range [] []
               = (Inr [push_day, boundary_day], [example_page_request 1, example_page_request 2])
            \<and> [push_day, boundary_day] \<noteq> []"
    by (simp add: cutoff_example two_days_run)
  have t: "map ex_title_of (all_exercises [push_day, boundary_day])
     = [''Bench Press'', ''Dips'', ''Squat'', ''Dips'', ''Squat'']"
    by (simp add: all_exercises_def exercises_of_def ex_title_of_def push_day_def boundary_day_def)
  have s: "sorted_ex [(''Bench Press'', 1), (''Dips'', 2), (''Squat'', 2)]
     = [(''Dips'', 2), (''Squat'', 2), (''Bench Press'', 1)]"
    by (simp add: sorted_ex_def)
  note inst = frequency_listing [where rnd = example_rnd and kept = "[push_day, boundary_day]"
      and st = ?st and now = example_now and days = 7 and cutoff = example_cutoff
      and env = example_env and server = "serve_pages [[push_day, boundary_day]]"
      and fromisoformat = example_parser and sent = "[]"
      and ?sent1.0 = "[example_page_request 1, example_page_request 2]"
      and format_volume = "\<lambda>v. ''800.0''"]
  from inst h1 have c1: "frequency_section (exercise_counts ?st) =
         (if exercise_counts ?st = [] then []
          else [[], ''**Most frequent exercises:**'']
               @ map (\<lambda>x. ''  '' @ bullet @ '' '' @ fst x @ '': '' @ str_nat (snd x) @ ''x'')
                     (sorted_ex (exercise_counts ?st)))"
    by blast
  from inst h1 h2 have c2: "analyze_recent_workouts example_env (serve_pages [[push_day, boundary_day]])
        example_now example_parser example_rnd (\<lambda>v. ''800.0'') 7 [] =
              (Inr (join_lines
                 ([header_line 7, [],
                   ''Total workouts: '' @ str_nat (length [push_day, boundary_day]),
                   ''Total sets: '' @ str_nat (total_sets ?st),
                   ''Total volume: '' @ (\<lambda>v. ''800.0'') (total_volume_kg ?st) @ '' kg'',
                   [],
                   ''**Workouts:**'']
                  @ map workout_line [push_day, boundary_day]
                  @ (if exercise_counts ?st = [] then []
                     else [[], ''**Most frequent exercises:**'']
                          @ map (\<lambda>x. ''  '' @ bullet @ '' '' @ fst x @ '': '' @ str_nat (snd x) @ ''x'')
                                (sorted_ex (exercise_counts ?st))))),
               [example_page_request 1, example_page_request 2])"
    by blast
  from c1 have c1': "frequency_section [(''Bench Press'', 1), (''Dips'', 2), (''Squat'', 2)]
     = [[], ''**Most frequent exercises:**'',
        ''  '' @ bullet @ '' Dips: 2x'',
        ''  '' @ bullet @ '' Squat: 2x'',
        ''  '' @ bullet @ '' Bench Press: 1x'']"
    by (simp add: s [simplified] str_nat_small)
  from c2 have c2': "analyze_recent_workouts example_env (serve_pages [[push_day, boundary_day]])
        example_now example_parser example_rnd (\<lambda>v. ''800.0'') 7 []
       = (Inr (join_lines
                 [header_line 7, [],
                  ''Total workouts: 2'',
                  ''Total sets: 5'',
                  ''Total volume: 800.0 kg'',
                  [],
                  ''**Workouts:**'',
                  workout_line push_day,
                  workout_line boundary_day,
                  [],
                  ''**Most frequent exercises:**'',
                  ''  '' @ bullet @ '' Dips: 2x'',
                  ''  '' @ bullet @ '' Squat: 2x'',
                  ''  '' @ bullet @ '' Bench Press: 1x'']),
          [example_page_request 1, example_page_request 2])"
    by (simp add: s [simplified] str_nat_small str_nat_length_2 del: join_lines.simps)
  from h1 t s c1' h2 c2' show ?thesis by (simp del: join_lines.simps)
qed

section \<open>The answer when nothing is kept\<close>

lemma str_nat_digits: "set (str_nat n) \<subseteq> set ''0123456789''"
proof (induction n rule: str_nat.induct)
  case (1 n)
  show ?case
  proof (cases "n < 10")
    case True
    then have "''0123456789'' ! n \<in> set ''0123456789''"
      by (intro nth_mem) simp
    with True show ?thesis by (subst str_nat.simps) simp
  next
    case False
    have "n mod 10 < length ''0123456789''" by simp
    then have "''0123456789'' ! (n mod 10) \<in> set ''0123456789''"
      by (rule nth_mem)
    with False 1 show ?thesis by (subst str_nat.simps) simp
  qed
qed

lemma str_int_no_newline: "CHR 0x0A \<notin> set (str_int i)"
  using str_nat_digits [of "nat i"] str_nat_digits [of "nat (- i)"]
  by (auto simp: str_int_def)

lemma no_activity_single_line: "CHR 0x0A \<notin> set (no_activity_message days)"
  by (simp add: no_activity_message_def str_int_no_newline)

text \<open>
  Claim C5. When the scan ends with no record kept, the tool returns exactly the text
  \<open>No workouts found in the last N days.\<close>, \<open>N\<close> being the day count as an f-string writes
  it, and this text has no line break: it is one line, with no header, no list of workouts
  and no list of exercises.
\<close>

theorem no_activity_message_only:
  "cutoff_time now days = Inr cutoff
   \<and> fetch_pages env server cutoff fromisoformat page_range [] sent = (Inr [], sent1)
   \<longrightarrow> analyze_recent_workouts env server now fromisoformat rnd format_volume days sent
         = (Inr (''No workouts found in the last '' @ str_int days @ '' days.''), sent1)
       \<and> CHR 0x0A \<notin> set (''No workouts found in the last '' @ str_int days @ '' days.'')"
  using no_activity_single_line [of days]
  by (simp add: analyze_recent_workouts_def no_activity_message_def)

lemma str_int_7: "str_int 7 = ''7''"
  by (simp add: str_int_def str_nat.simps)

text \<open>
  A server whose first page starts with a stale record: nothing is kept, and the tool
  returns the message for 7 days after a single request.
\<close>

theorem no_activity_message_only_witness:
  "cutoff_time example_now 7 = Inr example_cutoff
   \<and> fetch_pages example_env (serve_pages [[old_day, push_day]]) example_cutoff example_parser
        page_range [] [] = (Inr [], [example_page_request 1])
   \<and> analyze_recent_workouts example_env (serve_pages [[old_day, push_day]]) example_now
        example_parser example_rnd (\<lambda>v. ''?'') 7 []
       = (Inr ''No workouts found in the last 7 days.'', [example_page_request 1])"
proof -
  have h: "cutoff_time example_now 7 = Inr example_cutoff
   \<and> fetch_pages example_env (serve_pages [[old_day, push_day]]) example_cutoff example_parser
        page_range [] [] = (Inr [], [example_page_request 1])"
    by (simp add: cutoff_example page_range_def api_get_example workouts_of_def example_defs)
  from no_activity_message_only [of example_now 7 example_cutoff example_env
      "serve_pages [[old_day, push_day]]" example_parser "[]" "[example_page_request 1]"
      example_rnd "\<lambda>v. ''?''"] h
  show ?thesis by (simp add: str_int_7)
qed

section \<open>The four verbs and the status of the response\<close>

lemma api_get_status_error:
  assumes "get_client env = Inr c"
    and "server sent \<lparr>req_client = c, req_verb = GET, req_path = path,
                      req_params = params, req_json = None\<rparr> = Inr r"
    and "\<not> (200 \<le> status_code r \<and> status_code r \<le> 299)"
  shows "fst (api_get env server path params sent) = Inl (HTTPStatusError (status_code r) (content r))"
  using assms by (auto simp: api_get_def send_def raise_for_status_def)

lemma api_post_status_error:
  assumes "get_client env = Inr c"
    and "server sent \<lparr>req_client = c, req_verb = POST, req_path = path,
                      req_params = None, req_json = Some data\<rparr> = Inr r"
    and "\<not> (200 \<le> status_code r \<and> status_code r \<le> 299)"
  shows "fst (api_post env server path data sent) = Inl (HTTPStatusError (status_code r) (content r))"
  using assms by (auto simp: api_post_def send_def raise_for_status_def)

lemma api_put_status_error:
  assumes "get_client env = Inr c"
    and "server sent \<lparr>req_client = c, req_verb = PUT, req_path = path,
                      req_params = None, req_json = Some data\<rparr> = Inr r"
    and "\<not> (200 \<le> status_code r \<and> status_code r \<le> 299)"
  shows "fst (api_put env server path data sent) = Inl (HTTPStatusError (status_code r) (content r))"
  using assms by (auto simp: api_put_def send_def raise_for_status_def)

lemma api_delete_status_error:
  assumes "get_client env = Inr c"
    and "server sent \<lparr>req_client = c, req_verb = DELETE, req_path = path,
                      req_params = None, req_json = None\<rparr> = Inr r"
    and "\<not> (200 \<le> status_code r \<and> status_code r \<le> 299)"
  shows "fst (api_delete env server path sent) = Inl (HTTPStatusError (status_code r) (content r))"
  using assms by (auto simp: api_delete_def send_def raise_for_status_def)

lemma api_delete_empty_body:
  assumes "get_client env = Inr c"
    and "server sent \<lparr>req_client = c, req_verb = DELETE, req_path = path,
                      req_params = None, req_json = None\<rparr> = Inr r"
    and "200 \<le> status_code r \<and> status_code r \<le> 299"
    and "content r = []"
  shows "fst (api_delete env server path sent) = Inr (JObject [(''success'', JBool True)])"
  using assms by (simp add: api_delete_def send_def raise_for_status_def success_marker_def)

text \<open>
  Claim C8. With a client created and a response \<open>r\<close> received, whatever the request:
  \<^item> when the status of \<open>r\<close> is not from 200 to 299, each of \<open>api_get\<close>, \<open>api_post\<close>,
    \<open>api_put\<close> and \<open>api_delete\<close> raises \<open>HTTPStatusError\<close> with the status code and the
    body of \<open>r\<close>;
  \<^item> when the status of \<open>r\<close> is from 200 to 299 and the body is empty, \<open>api_delete\<close> returns
    \<open>{"success": True}\<close> and does not parse the body.
\<close>

theorem verbs_raise_for_status:
  "(get_client env = Inr c \<and> (\<forall>req. server sent req = Inr r)
      \<and> \<not> (200 \<le> status_code r \<and> status_code r \<le> 299)
    \<longrightarrow> fst (api_get env server path params sent) = Inl (HTTPStatusError (status_code r) (content r))
       \<and> fst (api_post env server path data sent) = Inl (HTTPStatusError (status_code r) (content r))
       \<and> fst (api_put env server path data sent) = Inl (HTTPStatusError (status_code r) (content r))
       \<and> fst (api_delete env server path sent) = Inl (HTTPStatusError (status_code r) (content r)))
   \<and> (get_client env = Inr c \<and> (\<forall>req. server sent req = Inr r)
      \<and> 200 \<le> status_code r \<and> status_code r \<le> 299 \<and> content r = []
    \<longrightarrow> fst (api_delete env server path sent) = Inr (JObject [(''success'', JBool True)]))"
  by (simp add: api_get_status_error api_post_status_error api_put_status_error
        api_delete_status_error api_delete_empty_body)

text \<open>
  A server that answers 404 makes each verb raise with status 404; a server that answers
  204 with an empty body makes \<open>api_delete\<close> return the marker, though parsing the body
  would raise.
\<close>

theorem verbs_raise_for_status_witness:
  "get_client example_env = Inr example_client
   \<and> (\<forall>req. (\<lambda>sent req. Inr not_found) [] req = Inr not_found)
   \<and> \<not> (200 \<le> status_code not_found \<and> status_code not_found \<le> 299)
   \<and> fst (api_get example_env (\<lambda>sent req. Inr not_found) ''/workouts/abc'' None [])
       = Inl (HTTPStatusError 404 ''Not Found'')
   \<and> fst (api_post example_env (\<lambda>sent req. Inr not_found) ''/workouts/abc'' JNull [])
       = Inl (HTTPStatusError 404 ''Not Found'')
   \<and> fst (api_put example_env (\<lambda>sent req. Inr not_found) ''/workouts/abc'' JNull [])
       = Inl (HTTPStatusError 404 ''Not Found'')
   \<and> fst (api_delete example_env (\<lambda>sent req. Inr not_found) ''/workouts/abc'' [])
       = Inl (HTTPStatusError 404 ''Not Found'')
   \<and> 200 \<le> status_code no_content \<and> status_code no_content \<le> 299 \<and> content no_content = []
   \<and> json no_content = Inl JSONDecodeError
   \<and> fst (api_delete example_env (\<lambda>sent req. Inr no_content) ''/routine_folders/7'' [])
       = Inr (JObject [(''success'', JBool True)])"
proof -
  have h1: "get_client example_env = Inr example_client
            \<and> (\<forall>req. (\<lambda>sent req. Inr not_found) [] req = Inr not_found)
            \<and> \<not> (200 \<le> status_code not_found \<and> status_code not_found \<le> 299)"
    by (simp add: get_client_example not_found_def)
  have h2: "get_client example_env = Inr example_client
            \<and> (\<forall>req. (\<lambda>sent req. Inr no_content) [] req = Inr no_content)
            \<and> 200 \<le> status_code no_content \<and> status_code no_content \<le> 299
            \<and> content no_content = []"
    by (simp add: get_client_example no_content_def)
  have v: "status_code not_found = 404" "content not_found = ''Not Found''"
    "json no_content = Inl JSONDecodeError"
    by (simp_all add: not_found_def no_content_def)
  from verbs_raise_for_status [of example_env example_client "\<lambda>sent req. Inr not_found" "[]"
      not_found "''/workouts/abc''" None JNull] h1
  have a: "fst (api_get example_env (\<lambda>sent req. Inr not_found) ''/workouts/abc'' None [])
       = Inl (HTTPStatusError 404 ''Not Found'')
   \<and> fst (api_post example_env (\<lambda>sent req. Inr not_found) ''/workouts/abc'' JNull [])
       = Inl (HTTPStatusError 404 ''Not Found'')
   \<and> fst (api_put example_env (\<lambda>sent req. Inr not_found) ''/workouts/abc'' JNull [])
       = Inl (HTTPStatusError 404 ''Not Found'')
   \<and> fst (api_delete example_env (\<lambda>sent req. Inr not_found) ''/workouts/abc'' [])
       = Inl (HTTPStatusError 404 ''Not Found'')"
    by (simp add: v)
  from verbs_raise_for_status [of example_env example_client "\<lambda>sent req. Inr no_content" "[]"
      no_content "''/routine_folders/7''" None JNull] h2
  have b: "fst (api_delete example_env (\<lambda>sent req. Inr no_content) ''/routine_folders/7'' [])
       = Inr (JObject [(''success'', JBool True)])"
    by blast
  from a b h1 h2 v show ?thesis by blast
qed

section \<open>A missing credential\<close>

text \<open>
  Claim C6 asks every adapter to fail with a descriptive error, before any request, when a
  credential it needs is not in the environment. The Hevy client does: with no
  \<open>HEVY_API_KEY\<close>, \<open>api_get\<close> raises the \<open>ValueError\<close> of \<open>get_client\<close> and sends
  nothing. The Strava adapter does not: with no \<open>STRAVA_ACCESS_TOKEN\<close>,
  \<open>_strava_client\<close> returns a client whose token is \<open>None\<close>, and the tool goes on to
  the call of the Strava API with that client.
\<close>

theorem missing_token_reaches_strava:
  "api_get Map.empty server path params [] = (Inl (ValueError missing_key_message), [])
   \<and> strava_client Map.empty = \<lparr>access_token = None\<rparr>
   \<and> snd (get_strava_activities Map.empty service render None [])
       = [\<lparr>sr_token = None, sr_call = GetActivities 10\<rparr>]"
  by (simp add: api_get_def get_client_def strava_client_def get_strava_activities_def
        split: sum.splits)

end
